theory Spec2Isabelle
  imports Main "HOL-Library.AList" "HOL-Library.Char_ord" "HOL-Library.List_Lexorder"
    "HOL-Library.Sublist"
begin

section \<open>DMArchiver: the crawl / parse / resume core of \<open>dmarchiver/core.py\<close>\<close>

text \<open>
  Conventions of the embedding.
  \<^item> A Python \<open>str\<close> is represented by its UTF-8 encoding, a \<open>string\<close> of 8-bit
    characters. Concatenation, equality, substring tests, \<open>replace\<close> of an ASCII
    character and the code-point order used by \<open>sorted\<close> are the same on the encoding
    as on the code points, and \<open>.encode('UTF-8')\<close> is the identity. Strings holding
    lone surrogates have no encoding and are not represented.
  \<^item> A file is its byte content, \<open>None\<close> when the file does not exist.
  \<^item> A Python \<open>dict\<close> (and an \<open>OrderedDict\<close>) is an association list in insertion
    order with distinct keys; \<open>d[k] = v\<close> is \<open>AList.update k v d\<close>, which keeps the
    position of a key already present and appends a new key.
  \<^item> An exception is a value of type \<open>exn\<close>; a function that may raise returns
    \<open>exn + 'a\<close>.
  \<^item> What the program obtains from outside (the HTML parser \<open>lxml\<close>, the HTTP
    session, the local time zone, \<open>os.linesep\<close>, a user interrupt) is a parameter.
\<close>

subsection \<open>Exceptions\<close>

datatype exn =
    Exception string
  | KeyError string
  | IndexError
  | ValueError
  | TypeError
  | AttributeError
  | FileNotFoundError
  | UnicodeDecodeError
  | OverflowError
  | OSError
  | KeyboardInterrupt
  | OtherError

subsection \<open>Strings\<close>

definition is_digit :: "char \<Rightarrow> bool" where
  "is_digit c = (CHR ''0'' \<le> c \<and> c \<le> CHR ''9'')"

definition digit_val :: "char \<Rightarrow> nat" where
  "digit_val c = of_char c - 48"

definition is_cont :: "char \<Rightarrow> bool" where
  "is_cont c = (128 \<le> (of_char c :: nat) \<and> (of_char c :: nat) < 192)"

text \<open>The characters of an encoded string: a byte with the continuation bytes after it.\<close>

function utf8_chars :: "string \<Rightarrow> string list" where
  "utf8_chars [] = []"
| "utf8_chars (c # cs) = (c # takeWhile is_cont cs) # utf8_chars (dropWhile is_cont cs)"
  by pat_completeness auto
termination
  by (relation "measure length") (auto simp: less_Suc_eq_le length_dropWhile_le)

text \<open>
  \<open>str.isspace\<close> on one character, given by its encoding: U+0009..U+000D,
  U+001C..U+0020, U+0085, U+00A0, U+1680, U+2000..U+200A, U+2028, U+2029, U+202F,
  U+205F, U+3000.
\<close>

definition py_isspace :: "string \<Rightarrow> bool" where
  "py_isspace t =
     (case map of_char t :: nat list of
        [a] \<Rightarrow> (9 \<le> a \<and> a \<le> 13) \<or> (28 \<le> a \<and> a \<le> 32)
      | [a, b] \<Rightarrow> a = 194 \<and> (b = 133 \<or> b = 160)
      | [a, b, c] \<Rightarrow>
          (a = 225 \<and> b = 154 \<and> c = 128)
          \<or> (a = 226 \<and> b = 128 \<and> ((128 \<le> c \<and> c \<le> 138) \<or> c = 168 \<or> c = 169 \<or> c = 175))
          \<or> (a = 226 \<and> b = 129 \<and> c = 159)
          \<or> (a = 227 \<and> b = 128 \<and> c = 128)
      | _ \<Rightarrow> False)"

definition py_rstrip :: "string \<Rightarrow> string" where
  "py_rstrip s = concat (rev (dropWhile py_isspace (rev (utf8_chars s))))"

definition py_lstrip :: "string \<Rightarrow> string" where
  "py_lstrip s = concat (dropWhile py_isspace (utf8_chars s))"

text \<open>\<open>s.strip()\<close>\<close>

definition py_strip :: "string \<Rightarrow> string" where
  "py_strip s = concat (rev (dropWhile py_isspace (rev (dropWhile py_isspace (utf8_chars s)))))"

text \<open>\<open>s.replace('\n', sep)\<close>\<close>

definition replace_newline :: "string \<Rightarrow> string \<Rightarrow> string" where
  "replace_newline sep s = concat (map (\<lambda>c. if c = CHR 0x0A then sep else [c]) s)"

text \<open>\<open>'{0}'.format(x)\<close> for a value that is a \<open>str\<close> or \<open>None\<close>.\<close>

definition py_format :: "string option \<Rightarrow> string" where
  "py_format x = (case x of None \<Rightarrow> ''None'' | Some s \<Rightarrow> s)"

text \<open>The decimal digits of a natural number.\<close>

definition digits :: string where
  "digits = ''0123456789''"

function dec :: "nat \<Rightarrow> string" where
  "dec n = (if n < 10 then [digits ! n] else dec (n div 10) @ [digits ! (n mod 10)])"
  by pat_completeness auto
termination
  by (relation "measure id") auto

declare dec.simps [simp del]

text \<open>
  \<open>int(s)\<close> for a \<open>str\<close>: surrounding whitespace, an optional sign, decimal digits with
  single underscores between them. The digits are the ASCII digits: a time stamp
  written with other Unicode decimal digits, which \<open>int\<close> reads too, is \<open>ValueError\<close> here.
\<close>

fun int_body :: "string \<Rightarrow> nat \<Rightarrow> nat option" where
  "int_body [] acc = Some acc"
| "int_body [c] acc = (if is_digit c then Some (10 * acc + digit_val c) else None)"
| "int_body (c # d # ds) acc =
     (if is_digit c then int_body (d # ds) (10 * acc + digit_val c)
      else if c = CHR ''_'' \<and> is_digit d then int_body ds (10 * acc + digit_val d)
      else None)"

definition int_unsigned :: "string \<Rightarrow> nat option" where
  "int_unsigned s =
     (case s of [] \<Rightarrow> None
      | c # cs \<Rightarrow> if is_digit c then int_body cs (digit_val c) else None)"

definition py_int :: "string option \<Rightarrow> exn + int" where
  "py_int x =
     (case x of
        None \<Rightarrow> Inl TypeError
      | Some s0 \<Rightarrow>
          (case py_strip s0 of
             [] \<Rightarrow> Inl ValueError
           | c # cs \<Rightarrow>
               if c = CHR ''-'' then
                 (case int_unsigned cs of None \<Rightarrow> Inl ValueError | Some n \<Rightarrow> Inr (- int n))
               else if c = CHR ''+'' then
                 (case int_unsigned cs of None \<Rightarrow> Inl ValueError | Some n \<Rightarrow> Inr (int n))
               else
                 (case int_unsigned (c # cs) of None \<Rightarrow> Inl ValueError | Some n \<Rightarrow> Inr (int n))))"

subsection \<open>The platform: \<open>os.linesep\<close> and local time\<close>

record platform =
  linesep :: string
  utcoffset :: "int \<Rightarrow> int"
  year_padded :: bool

text \<open>
  \<open>linesep\<close> is \<open>os.linesep\<close>; \<open>utcoffset t\<close> is the offset in seconds of local time
  from UTC at the instant \<open>t\<close> (seconds since the epoch); \<open>year_padded\<close> tells whether
  \<open>strftime('%Y')\<close> writes a year below 1000 with leading zeros (CPython from 3.13 on does,
  earlier versions leave it to the C library, and glibc does not).
\<close>

definition posix_utc :: platform where
  "posix_utc = \<lparr>linesep = [CHR 0x0A], utcoffset = (\<lambda>_. 0), year_padded = False\<rparr>"

text \<open>The proleptic Gregorian date of a day number (days since 1970-01-01).\<close>

definition civil_month :: "int \<Rightarrow> int \<Rightarrow> int \<Rightarrow> int \<times> int \<times> int" where
  "civil_month y doy mp =
     (y + (if mp < 10 then 0 else 1),
      (if mp < 10 then mp + 3 else mp - 9),
      doy - (153 * mp + 2) div 5 + 1)"

definition civil_year :: "int \<Rightarrow> int \<Rightarrow> int \<Rightarrow> int \<times> int \<times> int" where
  "civil_year era doe yoe =
     (let doy = doe - (365 * yoe + yoe div 4 - yoe div 100)
      in civil_month (yoe + era * 400) doy ((5 * doy + 2) div 153))"

definition civil_era :: "int \<Rightarrow> int \<Rightarrow> int \<times> int \<times> int" where
  "civil_era era doe =
     civil_year era doe ((doe - doe div 1460 + doe div 36524 - doe div 146096) div 365)"

definition civil_from_days :: "int \<Rightarrow> int \<times> int \<times> int" where
  "civil_from_days z = civil_era ((z + 719468) div 146097) ((z + 719468) mod 146097)"

definition pad2 :: "int \<Rightarrow> string" where
  "pad2 n = [''0123456789'' ! nat (n div 10 mod 10), ''0123456789'' ! nat (n mod 10)]"

definition pad4 :: "int \<Rightarrow> string" where
  "pad4 n = pad2 (n div 100) @ pad2 (n mod 100)"

text \<open>
  \<open>datetime.datetime.fromtimestamp(t)\<close> for an \<open>int\<close>, as CPython computes it where
  \<open>time_t\<close> has 64 bits and \<open>localtime\<close> is that of a POSIX C library:
  \<^item> a time stamp that does not fit \<open>time_t\<close> raises \<open>OverflowError\<close>;
  \<^item> \<open>localtime\<close> fails when the year, counted from 1900, does not fit an \<open>int\<close>:
    \<open>OSError\<close>;
  \<^item> a year outside 1..9999 raises \<open>ValueError\<close>;
  \<^item> to find the \<open>fold\<close>, local time is asked again for the instant one day earlier, and
    a year below 1 there raises \<open>ValueError\<close> too. The offset from UTC of that instant is
    taken to be that of \<open>t\<close>.

  The result is the local date and the second of the day.
\<close>

definition check_year ::
  "int \<times> int \<times> int \<Rightarrow> int \<times> int \<times> int \<Rightarrow> int \<Rightarrow> exn + (int \<times> int \<times> int) \<times> int" where
  "check_year ymd probe sod =
     (if fst ymd - 1900 < - 2147483648 \<or> 2147483647 < fst ymd - 1900 then Inl OSError
      else if fst ymd < 1 \<or> 9999 < fst ymd then Inl ValueError
      else if fst probe < 1 then Inl ValueError
      else Inr (ymd, sod))"

definition local_time :: "int \<Rightarrow> exn + (int \<times> int \<times> int) \<times> int" where
  "local_time u =
     check_year (civil_from_days (u div 86400)) (civil_from_days ((u - 86400) div 86400))
       (u mod 86400)"

definition fromtimestamp :: "platform \<Rightarrow> int \<Rightarrow> exn + (int \<times> int \<times> int) \<times> int" where
  "fromtimestamp pf t =
     (if t < - 9223372036854775808 \<or> 9223372036854775807 < t then Inl OverflowError
      else local_time (t + utcoffset pf t))"

text \<open>\<open>.strftime('%Y-%m-%d %H:%M:%S')\<close>\<close>

definition year_str :: "platform \<Rightarrow> int \<Rightarrow> string" where
  "year_str pf y = (if year_padded pf then pad4 y else dec (nat y))"

definition strftime :: "platform \<Rightarrow> (int \<times> int \<times> int) \<times> int \<Rightarrow> string" where
  "strftime pf dt =
     year_str pf (fst (fst dt)) @ ''-'' @ pad2 (fst (snd (fst dt))) @ ''-''
     @ pad2 (snd (snd (fst dt)))
     @ '' '' @ pad2 (snd dt div 3600) @ '':'' @ pad2 (snd dt mod 3600 div 60) @ '':''
     @ pad2 (snd dt mod 60)"

definition irc_formatted_date :: "platform \<Rightarrow> int \<Rightarrow> exn + string" where
  "irc_formatted_date pf t =
     (case fromtimestamp pf t of Inl e \<Rightarrow> Inl e | Inr dt \<Rightarrow> Inr (strftime pf dt))"

subsection \<open>The data model\<close>

datatype MediaType = image | gif | video | sticker | unknown

definition MediaType_name :: "MediaType \<Rightarrow> string" where
  "MediaType_name t =
     (case t of image \<Rightarrow> ''image'' | gif \<Rightarrow> ''gif'' | video \<Rightarrow> ''video''
      | sticker \<Rightarrow> ''sticker'' | unknown \<Rightarrow> ''unknown'')"

text \<open>
  The elements of a direct message, with the fields their constructors store:
  \<open>DirectMessageCard _card_url _card_name _expanded_url\<close> and
  \<open>DirectMessageMedia _media_url _media_preview_url _media_alt _media_type\<close>.
  An attribute read with \<open>.get\<close> that is only ever formatted may be \<open>None\<close>.
\<close>

datatype element =
    DirectMessageText string
  | DirectMessageTweet string
  | DirectMessageCard string "string option" string
  | DirectMessageMedia string string "string option" MediaType

text \<open>\<open>__str__\<close> of an element\<close>

fun element_str :: "element \<Rightarrow> string" where
  "element_str (DirectMessageText text) = text"
| "element_str (DirectMessageTweet tweet_url) = ''[Tweet] '' @ tweet_url"
| "element_str (DirectMessageCard card_url card_name expanded_url) =
     ''[Card-'' @ py_format card_name @ ''] '' @ expanded_url"
| "element_str (DirectMessageMedia media_url media_preview_url media_alt media_type) =
     (if media_preview_url \<noteq> '''' then
        ''[Media-'' @ MediaType_name media_type @ ''] '' @ media_url
        @ '' [Media-preview] '' @ media_preview_url
      else if media_alt \<noteq> Some '''' then
        ''[Media-'' @ MediaType_name media_type @ ''] ['' @ py_format media_alt @ ''] ''
        @ media_url
      else ''[Media-'' @ MediaType_name media_type @ ''] '' @ media_url)"

text \<open>
  A value stored in \<open>Conversation.tweets\<close>: \<open>DirectMessage tweet_id time_stamp author
  elements\<close>, \<open>DMConversationEntry tweet_id _text\<close>, or the empty string that
  \<open>_process_tweets\<close> leaves in \<open>message\<close> when a fragment is neither.
\<close>

datatype message =
    DirectMessage string "string option" "string option" "element list"
  | DMConversationEntry string string
  | Empty_Str

text \<open>\<open>DMConversationEntry.__init__\<close> strips the text.\<close>

definition new_DMConversationEntry :: "string \<Rightarrow> string \<Rightarrow> message" where
  "new_DMConversationEntry tweet_id text = DMConversationEntry tweet_id (py_strip text)"

type_synonym 'v dict = "(string \<times> 'v) list"

subsection \<open>\<open>Conversation.write_conversation\<close>\<close>

text \<open>The inner loop over \<open>tweet[1].elements\<close>.\<close>

definition render_elements :: "platform \<Rightarrow> element list \<Rightarrow> string" where
  "render_elements pf es =
     concat (map (\<lambda>e. replace_newline (linesep pf) (element_str e @ '' '')) es)"

text \<open>What one item adds to \<open>file_buffer\<close>.\<close>

fun render_message :: "platform \<Rightarrow> message \<Rightarrow> exn + string" where
  "render_message pf (DirectMessage tweet_id time_stamp author es) =
     (case py_int time_stamp of
        Inl e \<Rightarrow> Inl e
      | Inr t \<Rightarrow>
          (case irc_formatted_date pf t of
             Inl e \<Rightarrow> Inl e
           | Inr date \<Rightarrow>
               Inr (butlast (''['' @ date @ ''] <'' @ py_format author @ ''> ''
                             @ render_elements pf es)
                    @ linesep pf)))"
| "render_message pf (DMConversationEntry tweet_id text) =
     Inr (''[DMConversationEntry] '' @ text @ linesep pf)"
| "render_message pf Empty_Str = Inr ''''"

fun render_items :: "platform \<Rightarrow> (string \<times> message) list \<Rightarrow> exn + string" where
  "render_items pf [] = Inr ''''"
| "render_items pf (tweet # rest) =
     (case render_message pf (snd tweet) of
        Inl e \<Rightarrow> Inl e
      | Inr line \<Rightarrow>
          (case render_items pf rest of Inl e \<Rightarrow> Inl e | Inr body \<Rightarrow> Inr (line @ body)))"

text \<open>\<open>tweet[1].tweet_id\<close>: the string has no such attribute.\<close>

fun tweet_id_of :: "message \<Rightarrow> exn + string" where
  "tweet_id_of (DirectMessage tweet_id _ _ _) = Inr tweet_id"
| "tweet_id_of (DMConversationEntry tweet_id _) = Inr tweet_id"
| "tweet_id_of Empty_Str = Inl AttributeError"

text \<open>\<open>file.readlines()\<close> on a binary file: the lines, each with its line feed.\<close>

fun readlines :: "string \<Rightarrow> string list" where
  "readlines [] = []"
| "readlines (c # cs) =
     (if c = CHR 0x0A then [c] # readlines cs
      else (case readlines cs of [] \<Rightarrow> [[c]] | l # ls \<Rightarrow> (c # l) # ls))"

definition latest_marker :: "platform \<Rightarrow> string \<Rightarrow> string" where
  "latest_marker pf tweet_id = ''[LatestTweetID] '' @ tweet_id @ linesep pf"

text \<open>
  \<open>write_conversation(filename, max_id)\<close> on the content of \<open>filename\<close>; the result is
  the new content.
\<close>

definition write_conversation ::
  "platform \<Rightarrow> message dict \<Rightarrow> string option \<Rightarrow> string \<Rightarrow> exn + string option" where
  "write_conversation pf tweets file max_id =
     (let items = rev tweets in
      case render_items pf items of
        Inl e \<Rightarrow> Inl e
      | Inr body \<Rightarrow>
          if length items > 0 then
            (case tweet_id_of (snd (last items)) of
               Inl e \<Rightarrow> Inl e
             | Inr latest \<Rightarrow>
                 let file_buffer = body @ latest_marker pf latest in
                 if max_id \<noteq> ''0'' then
                   (case file of
                      None \<Rightarrow> Inl FileNotFoundError
                    | Some content \<Rightarrow>
                        Inr (Some (concat (butlast (readlines content)) @ file_buffer)))
                 else Inr (Some file_buffer))
          else Inr file)"

subsection \<open>\<open>Crawler._get_latest_tweet_id\<close>\<close>

text \<open>
  The width in bytes of the well-formed UTF-8 sequence at the front of a list of byte
  values, 0 when there is none.
\<close>

definition cont_byte :: "nat \<Rightarrow> bool" where
  "cont_byte b = (128 \<le> b \<and> b \<le> 191)"

fun utf8_width :: "nat list \<Rightarrow> nat" where
  "utf8_width [] = 0"
| "utf8_width [a] = (if a < 128 then 1 else 0)"
| "utf8_width [a, b] =
     (if a < 128 then 1 else if 194 \<le> a \<and> a \<le> 223 \<and> cont_byte b then 2 else 0)"
| "utf8_width [a, b, c] =
     (if a < 128 then 1
      else if 194 \<le> a \<and> a \<le> 223 \<and> cont_byte b then 2
      else if 224 \<le> a \<and> a \<le> 239 \<and> cont_byte b \<and> cont_byte c
              \<and> (a = 224 \<longrightarrow> 160 \<le> b) \<and> (a = 237 \<longrightarrow> b \<le> 159) then 3
      else 0)"
| "utf8_width (a # b # c # d # _) =
     (if a < 128 then 1
      else if 194 \<le> a \<and> a \<le> 223 \<and> cont_byte b then 2
      else if 224 \<le> a \<and> a \<le> 239 \<and> cont_byte b \<and> cont_byte c
              \<and> (a = 224 \<longrightarrow> 160 \<le> b) \<and> (a = 237 \<longrightarrow> b \<le> 159) then 3
      else if 240 \<le> a \<and> a \<le> 244 \<and> cont_byte b \<and> cont_byte c \<and> cont_byte d
              \<and> (a = 240 \<longrightarrow> 144 \<le> b) \<and> (a = 244 \<longrightarrow> b \<le> 143) then 4
      else 0)"

text \<open>Whether \<open>bytes.decode('utf-8')\<close> succeeds.\<close>

function utf8_valid :: "string \<Rightarrow> bool" where
  "utf8_valid s =
     (if s = [] then True
      else if utf8_width (map of_char s) = 0 then False
      else utf8_valid (drop (utf8_width (map of_char s)) s))"
  by pat_completeness auto
termination
  by (relation "measure length") auto

declare utf8_valid.simps [simp del]

text \<open>
  \<open>re.match(r"^\[LatestTweetID\] ([0-9]+)", line)\<close>: the first group when the line
  matches.
\<close>

definition match_latest :: "string \<Rightarrow> string option" where
  "match_latest line =
     (if prefix ''[LatestTweetID] '' line \<and> takeWhile is_digit (drop 16 line) \<noteq> []
      then Some (takeWhile is_digit (drop 16 line)) else None)"

text \<open>
  The file is the content of \<open>'{0}.txt'.format(thread_id)\<close>. A file that cannot be
  opened gives \<open>'0'\<close>; \<open>lines[-1]\<close> of an empty file and a last line that does not
  decode raise.
\<close>

definition get_latest_tweet_id :: "string option \<Rightarrow> exn + string" where
  "get_latest_tweet_id file =
     (case file of
        None \<Rightarrow> Inr ''0''
      | Some content \<Rightarrow>
          (case readlines content of
             [] \<Rightarrow> Inl IndexError
           | l # ls \<Rightarrow>
               if \<not> utf8_valid (last (l # ls)) then Inl UnicodeDecodeError
               else (case match_latest (last (l # ls)) of
                       Some latest \<Rightarrow> Inr latest
                     | None \<Rightarrow> Inr ''0'')))"

subsection \<open>\<open>Crawler._process_tweets\<close>\<close>

text \<open>
  What \<open>lxml\<close> and the four element parsers do with one fragment is a parameter of the
  model: for a tweet id and its raw value, the course the \<open>try\<close> block takes.
  \<^item> \<open>Fragment_Raised e\<close>: \<open>e\<close> is raised before a message is built
    (\<open>fragment_fromstring\<close>, a selector, the avatar or the footer).
  \<^item> \<open>Fragment_DM dm_author time_stamp outcomes\<close>: \<open>div.DirectMessage-container\<close>
    matched; \<open>outcomes\<close> is what happens for each of \<open>dm_elements\<close> in turn.
  \<^item> \<open>Fragment_Entry text\<close>: only \<open>div.DMConversationEntry\<close> matched, with this
    \<open>.text\<close>.
  \<^item> \<open>Fragment_None\<close>: neither matched.
  A \<open>KeyboardInterrupt\<close> that arrives during the block is the exception raised.
\<close>

datatype element_outcome =
    Appended element
  | Unknown_Element_Type
  | Element_Raised exn

datatype fragment =
    Fragment_Raised exn
  | Fragment_DM "string option" "string option" "element_outcome list"
  | Fragment_Entry "string option"
  | Fragment_None

type_synonym parser = "string \<Rightarrow> string \<Rightarrow> fragment"

text \<open>The loop over \<open>dm_elements\<close>, appending to \<open>message.elements\<close>.\<close>

fun parse_elements :: "element_outcome list \<Rightarrow> element list \<Rightarrow> exn + element list" where
  "parse_elements [] elements = Inr elements"
| "parse_elements (Appended element_object # rest) elements =
     parse_elements rest (elements @ [element_object])"
| "parse_elements (Unknown_Element_Type # rest) elements = parse_elements rest elements"
| "parse_elements (Element_Raised e # rest) elements = Inl e"

text \<open>The body of the \<open>try\<close>: the value left in \<open>message\<close>, or the exception.\<close>

fun parse_fragment :: "string \<Rightarrow> fragment \<Rightarrow> exn + message" where
  "parse_fragment tweet_id (Fragment_Raised e) = Inl e"
| "parse_fragment tweet_id (Fragment_DM dm_author time_stamp outcomes) =
     (case parse_elements outcomes [] of
        Inl e \<Rightarrow> Inl e
      | Inr elements \<Rightarrow> Inr (DirectMessage tweet_id time_stamp dm_author elements))"
| "parse_fragment tweet_id (Fragment_Entry None) = Inl AttributeError"
| "parse_fragment tweet_id (Fragment_Entry (Some text)) =
     Inr (new_DMConversationEntry tweet_id (py_strip text))"
| "parse_fragment tweet_id Fragment_None = Inr Empty_Str"

text \<open>The entry built by the bare \<open>except\<close>.\<close>

definition parse_error_entry :: "string \<Rightarrow> string \<Rightarrow> message" where
  "parse_error_entry tweet_id value =
     new_DMConversationEntry tweet_id
       (''[ParseError] Parsing of tweet '' @ [CHR 0x27] @ tweet_id @ [CHR 0x27]
        @ '' failed. Raw HTML: '' @ value)"

text \<open>
  \<open>sorted(tweets, reverse=True)\<close>, each key with \<open>tweets[tweet_id]\<close>: the keys are
  strings and are compared as strings.
\<close>

definition ordered_tweets :: "string dict \<Rightarrow> (string \<times> string) list" where
  "ordered_tweets tweets = rev (sort_key fst tweets)"

text \<open>
  The \<open>for\<close> loop. The state is \<open>self._max_id_found\<close> and \<open>conversation_set\<close>; a
  \<open>break\<close> returns it.
\<close>

fun process_loop ::
  "parser \<Rightarrow> string \<Rightarrow> (string \<times> string) list \<Rightarrow> bool \<times> message dict \<Rightarrow> bool \<times> message dict"
where
  "process_loop parse max_id [] st = st"
| "process_loop parse max_id (tweet # rest) st =
     (if fst tweet = max_id then (True, snd st)
      else
        (case parse_fragment (fst tweet) (parse (fst tweet) (snd tweet)) of
           Inl e \<Rightarrow>
             if e = KeyboardInterrupt then (True, snd st)
             else process_loop parse max_id rest
                    (fst st,
                     AList.update (fst tweet) (parse_error_entry (fst tweet) (snd tweet)) (snd st))
         | Inr message \<Rightarrow>
             process_loop parse max_id rest (fst st, AList.update (fst tweet) message (snd st))))"

definition process_tweets ::
  "parser \<Rightarrow> string dict \<Rightarrow> string \<Rightarrow> bool \<Rightarrow> bool \<times> message dict" where
  "process_tweets parse tweets max_id found =
     process_loop parse max_id (ordered_tweets tweets) (found, [])"

subsection \<open>Responses and the \<open>errors\<close> array\<close>

text \<open>
  One request of a pagination loop, as the run meets it: the request (or
  \<open>response.json()\<close>) raises, or a body arrives, and then \<open>time.sleep(delay)\<close>, when
  reached, may raise.
\<close>

datatype 'j request_event =
    Request_Raised exn
  | Response 'j "exn option"

text \<open>\<open>'{0}'.format(n)\<close> for an \<open>int\<close>\<close>

definition format_int :: "int \<Rightarrow> string" where
  "format_int n = (if n < 0 then ''-'' @ dec (nat (- n)) else dec (nat n))"

definition lock_guidance :: string where
  "lock_guidance =
     ''DMArchiver was identified as suspicious and your account as been temporarily locked by Twitter.''
     @ [CHR 0x0A]
     @ ''Don'' @ [CHR 0x27] @ ''t worry, you can unlock your account by following the intructions on the Twitter website.''
     @ [CHR 0x0A]
     @ ''Maybe it'' @ [CHR 0x27] @ ''s the first time you use it or maybe you have a lot of messages.''
     @ [CHR 0x0A]
     @ ''You can unlock your account and try again, and possibly use the -d option to slow down the tool.''
     @ [CHR 0x0A]"

definition error_details :: "int \<Rightarrow> string \<Rightarrow> string" where
  "error_details code message =
     ''Twitter error details below:'' @ [CHR 0x0A] @ ''Code '' @ format_int code @ '': ''
     @ message @ [CHR 0x0A]"

text \<open>
  The block \<open>if 'errors' in json\<close>, the same in \<open>get_threads\<close> and in \<open>crawl\<close> but for
  the two texts: what it prints and what it raises. \<open>errors\<close> is the list of
  (code, message) of the array, \<open>None\<close> when the key is absent.
\<close>

definition check_errors ::
  "string \<Rightarrow> string \<Rightarrow> (int \<times> string) list option \<Rightarrow> string list \<times> exn option" where
  "check_errors headline stop errors =
     (case errors of
        None \<Rightarrow> ([], None)
      | Some [] \<Rightarrow> ([headline], Some IndexError)
      | Some (first # _) \<Rightarrow>
          ([headline] @ (if fst first = 326 then [lock_guidance] else [])
           @ [error_details (fst first) (snd first)],
           Some (Exception stop)))"

text \<open>
  The result of a loop run on a script of request events: still \<open>Running\<close> when the
  script is used up and the loop would issue another request, \<open>Finished\<close> when the loop
  was left (by \<open>break\<close>, by its condition, or by an exception caught around it), \<open>Failed\<close>
  when an exception leaves the function.
\<close>

datatype 's loop_result = Running 's | Finished 's | Failed exn 's

subsection \<open>\<open>Crawler.crawl\<close>\<close>

record conversation_json =
  errors :: "(int \<times> string) list option"
  max_entry_id :: "string option"
  min_entry_id :: "string option"
  items :: "string dict option"

text \<open>
  The state of the loop: \<open>conversation.tweets\<close>, \<open>payload['max_entry_id']\<close> (absent in
  the first request), \<open>self._max_id_found\<close>, the payloads of the requests made and the
  output of the \<open>errors\<close> block. Progress messages are not recorded.
\<close>

record crawl_state =
  tweets :: "message dict"
  payload :: "string option"
  max_id_found :: bool
  requests :: "string option list"
  printed :: "string list"

text \<open>\<open>conversation.tweets[tweet_id] = conversation_set[tweet_id]\<close> for each key\<close>

definition append_conversation :: "message dict \<Rightarrow> message dict \<Rightarrow> message dict" where
  "append_conversation conversation_set ts = fold (\<lambda>kv. AList.update (fst kv) (snd kv)) conversation_set ts"

text \<open>One turn of \<open>while True and self._max_id_found is False\<close>, the condition holding.\<close>

definition crawl_page ::
  "parser \<Rightarrow> string \<Rightarrow> conversation_json request_event \<Rightarrow> crawl_state \<Rightarrow> crawl_state loop_result"
where
  "crawl_page parse max_id ev st0 =
     (let st = st0\<lparr>requests := requests st0 @ [payload st0]\<rparr> in
      case ev of
        Request_Raised e \<Rightarrow> if e = KeyboardInterrupt then Finished st else Failed e st
      | Response json slept \<Rightarrow>
          (case check_errors
                  (''An error occured during the parsing of the tweets.'' @ [CHR 0x0A])
                  ''Stopping execution due to parsing error while retrieving the tweets.''
                  (errors json) of
             (out, Some e) \<Rightarrow> Failed e (st\<lparr>printed := printed st @ out\<rparr>)
           | (out, None) \<Rightarrow>
               if max_entry_id json = None then Finished st
               else
                 (case min_entry_id json of
                    None \<Rightarrow> Failed (KeyError ''min_entry_id'') st
                  | Some cursor \<Rightarrow>
                      (case items json of
                         None \<Rightarrow> Failed (KeyError ''items'') (st\<lparr>payload := Some cursor\<rparr>)
                       | Some page \<Rightarrow>
                           (let r = process_tweets parse page max_id (max_id_found st);
                                st' = st\<lparr>payload := Some cursor,
                                         max_id_found := fst r,
                                         tweets := append_conversation (snd r) (tweets st)\<rparr>
                            in case slept of
                                 None \<Rightarrow> Running st'
                               | Some e \<Rightarrow>
                                   if e = KeyboardInterrupt then Finished st'
                                   else Failed e st')))))"

text \<open>The state after a page whose fields are all present has been processed.\<close>

definition page_state ::
  "parser \<Rightarrow> string \<Rightarrow> string \<Rightarrow> string dict \<Rightarrow> crawl_state \<Rightarrow> crawl_state" where
  "page_state parse max_id next_cursor page st =
     st\<lparr>requests := requests st @ [payload st],
        payload := Some next_cursor,
        max_id_found := fst (process_tweets parse page max_id (max_id_found st)),
        tweets := append_conversation
                    (snd (process_tweets parse page max_id (max_id_found st))) (tweets st)\<rparr>"

fun crawl_loop ::
  "parser \<Rightarrow> string \<Rightarrow> conversation_json request_event list \<Rightarrow> crawl_state
   \<Rightarrow> crawl_state loop_result"
where
  "crawl_loop parse max_id [] st = (if max_id_found st then Finished st else Running st)"
| "crawl_loop parse max_id (ev # evs) st =
     (if max_id_found st then Finished st
      else (case crawl_page parse max_id ev st of
              Running st' \<Rightarrow> crawl_loop parse max_id evs st'
            | Finished st' \<Rightarrow> Finished st'
            | Failed e st' \<Rightarrow> Failed e st'))"

text \<open>
  The outcome of \<open>crawl\<close>: the exception that left it if any, the arguments of the call
  of \<open>write_conversation\<close> if it was called, the transcript afterwards, the requests
  made, the output of the \<open>errors\<close> block and \<open>self._max_id_found\<close> afterwards.
\<close>

record crawl_result =
  raised :: "exn option"
  written :: "(message dict \<times> string) option"
  transcript :: "string option"
  requested :: "string option list"
  console :: "string list"
  found_after :: bool

definition initial_state :: "bool \<Rightarrow> crawl_state" where
  "initial_state found =
     \<lparr>tweets = [], payload = None, max_id_found = found, requests = [], printed = []\<rparr>"

text \<open>
  What follows the loop when no exception left it: the call of \<open>write_conversation\<close>
  and the reset of \<open>self._max_id_found\<close>.
\<close>

definition finish :: "platform \<Rightarrow> crawl_state \<Rightarrow> string option \<Rightarrow> string \<Rightarrow> crawl_result" where
  "finish pf st file max_id =
     (case write_conversation pf (tweets st) file max_id of
        Inl e \<Rightarrow>
          \<lparr>raised = Some e, written = Some (tweets st, max_id), transcript = file,
           requested = requests st, console = printed st, found_after = max_id_found st\<rparr>
      | Inr file' \<Rightarrow>
          \<lparr>raised = None, written = Some (tweets st, max_id), transcript = file',
           requested = requests st, console = printed st, found_after = False\<rparr>)"

text \<open>An exception leaves \<open>crawl\<close>: nothing is written.\<close>

definition abort :: "exn \<Rightarrow> crawl_state \<Rightarrow> string option \<Rightarrow> crawl_result" where
  "abort e st file =
     \<lparr>raised = Some e, written = None, transcript = file, requested = requests st,
      console = printed st, found_after = max_id_found st\<rparr>"

text \<open>
  \<open>crawl\<close> with \<open>raw_output=False\<close>, on the transcript \<open>file\<close>, with \<open>found\<close> the value
  of \<open>self._max_id_found\<close> at the call. The result is \<open>None\<close> when the script ends
  before the loop does.
\<close>

definition crawl ::
  "platform \<Rightarrow> parser \<Rightarrow> conversation_json request_event list \<Rightarrow> bool \<Rightarrow> string option
   \<Rightarrow> crawl_result option"
where
  "crawl pf parse script found file =
     (case get_latest_tweet_id file of
        Inl e \<Rightarrow> Some (abort e (initial_state found) file)
      | Inr max_id \<Rightarrow>
          (case crawl_loop parse max_id script (initial_state found) of
             Running st \<Rightarrow> None
           | Failed e st \<Rightarrow> Some (abort e st file)
           | Finished st \<Rightarrow> Some (finish pf st file max_id)))"

subsection \<open>\<open>Crawler.get_threads\<close>\<close>

text \<open>
  A thread-list body: the \<open>errors\<close> array, and the objects \<open>json['inner']['trusted']\<close>
  and \<open>json['trusted']\<close>, each \<open>None\<close> when a key on the way is absent. In such an
  object \<open>has_more\<close> is \<open>Some False\<close> when the value is \<open>False\<close> and \<open>Some True\<close> for any
  other value.
\<close>

record trusted_json =
  threads :: "string list option"
  has_more :: "bool option"
  trusted_min_entry_id :: "string option"

record threads_json =
  threads_errors :: "(int \<times> string) list option"
  inner_trusted :: "trusted_json option"
  trusted :: "trusted_json option"

record threads_state =
  collected :: "string list"
  first_request :: bool
  cursor :: "string option"
  threads_requests :: "string option list"
  threads_printed :: "string list"

text \<open>
  The \<open>try\<close> block on the envelope \<open>t\<close> of the response; a \<open>KeyError\<close> is caught and
  leaves the loop.
\<close>

definition read_trusted ::
  "trusted_json option \<Rightarrow> exn option \<Rightarrow> threads_state \<Rightarrow> threads_state loop_result" where
  "read_trusted t slept st =
     (case t of
        None \<Rightarrow> Finished st
      | Some env \<Rightarrow>
          (case threads env of
             None \<Rightarrow> Finished st
           | Some ths \<Rightarrow>
               (let st1 = st\<lparr>collected := collected st @ ths\<rparr> in
                case has_more env of
                  None \<Rightarrow> Finished st1
                | Some continue \<Rightarrow>
                    if \<not> continue then Finished st1
                    else
                      (case trusted_min_entry_id env of
                         None \<Rightarrow> Finished st1
                       | Some c \<Rightarrow>
                           (case slept of
                              None \<Rightarrow> Running (st1\<lparr>cursor := Some c\<rparr>)
                            | Some e \<Rightarrow> Failed e (st1\<lparr>cursor := Some c\<rparr>))))))"

definition threads_page ::
  "threads_json request_event \<Rightarrow> threads_state \<Rightarrow> threads_state loop_result" where
  "threads_page ev st0 =
     (let st = st0\<lparr>threads_requests := threads_requests st0 @ [cursor st0]\<rparr> in
      case ev of
        Request_Raised e \<Rightarrow> Failed e st
      | Response json slept \<Rightarrow>
          (case check_errors
                  (''An error occured during the parsing of the conversions.'' @ [CHR 0x0A])
                  ''Stopping execution due to parsing error while retrieving the conversations''
                  (threads_errors json) of
             (out, Some e) \<Rightarrow> Failed e (st\<lparr>threads_printed := threads_printed st @ out\<rparr>)
           | (out, None) \<Rightarrow>
               if first_request st = False
               then read_trusted (inner_trusted json) slept (st\<lparr>first_request := True\<rparr>)
               else read_trusted (trusted json) slept st))"

fun threads_loop ::
  "threads_json request_event list \<Rightarrow> threads_state \<Rightarrow> threads_state loop_result" where
  "threads_loop [] st = Running st"
| "threads_loop (ev # evs) st =
     (case threads_page ev st of
        Running st' \<Rightarrow> threads_loop evs st'
      | Finished st' \<Rightarrow> Finished st'
      | Failed e st' \<Rightarrow> Failed e st')"

text \<open>
  \<open>get_threads\<close> with \<open>raw_output=False\<close>: the exception or the list returned, with the
  output of the \<open>errors\<close> block; \<open>None\<close> when the script ends before the loop does.
\<close>

definition threads_initial :: threads_state where
  "threads_initial =
     \<lparr>collected = [], first_request = False, cursor = None, threads_requests = [],
      threads_printed = []\<rparr>"

definition get_threads ::
  "threads_json request_event list \<Rightarrow> ((exn + string list) \<times> string list) option" where
  "get_threads script =
     (case threads_loop script threads_initial of
        Running st \<Rightarrow> None
      | Finished st \<Rightarrow> Some (Inr (collected st), threads_printed st)
      | Failed e st \<Rightarrow> Some (Inl e, threads_printed st))"

subsection \<open>\<open>_process_tweets\<close> with the lists as objects\<close>

text \<open>
  For the sharing of the \<open>elements\<close> lists the lists are objects in a store: a
  reference is a number, the store maps the references allocated so far to their
  content, and \<open>next_ref\<close> is the next reference to allocate.
\<close>

type_synonym ref = nat

record store =
  lists :: "ref \<Rightarrow> element list"
  next_ref :: ref

text \<open>The list of the class attribute \<open>DirectMessage.elements = []\<close>.\<close>

definition class_elements :: ref where
  "class_elements = 0"

text \<open>
  A message object: a \<open>DirectMessage\<close> with its instance attribute \<open>elements\<close>
  (\<open>None\<close> until it is assigned), or a value that holds no list.
\<close>

datatype stored =
    Stored_DM string "string option" "string option" "ref option"
  | Stored_Value message

text \<open>
  The attribute lookup \<open>message.elements\<close>: the instance attribute when there is
  one, the class attribute otherwise.
\<close>

definition elements_ref :: "ref option \<Rightarrow> ref" where
  "elements_ref own = (case own of Some r \<Rightarrow> r | None \<Rightarrow> class_elements)"

text \<open>\<open>[]\<close>: a new list object.\<close>

definition new_list :: "store \<Rightarrow> ref \<times> store" where
  "new_list s =
     (next_ref s, s\<lparr>lists := (lists s)(next_ref s := []), next_ref := Suc (next_ref s)\<rparr>)"

text \<open>\<open>.append(x)\<close> on the list object \<open>r\<close>.\<close>

definition append_to :: "ref \<Rightarrow> element \<Rightarrow> store \<Rightarrow> store" where
  "append_to r x s = s\<lparr>lists := (lists s)(r := lists s r @ [x])\<rparr>"

text \<open>The loop over \<open>dm_elements\<close>, each \<open>message.elements.append(element_object)\<close>.\<close>

fun append_elements :: "ref option \<Rightarrow> element_outcome list \<Rightarrow> store \<Rightarrow> exn option \<times> store" where
  "append_elements own [] s = (None, s)"
| "append_elements own (Appended element_object # rest) s =
     append_elements own rest (append_to (elements_ref own) element_object s)"
| "append_elements own (Unknown_Element_Type # rest) s = append_elements own rest s"
| "append_elements own (Element_Raised e # rest) s = (Some e, s)"

text \<open>
  The body of the \<open>try\<close> on the store. For a message,
  \<open>message = DirectMessage(tweet_id, time_stamp, dm_author)\<close> and then
  \<open>message.elements = []\<close> give the object its own new list before the loop.
\<close>

fun parse_fragment_in :: "string \<Rightarrow> fragment \<Rightarrow> store \<Rightarrow> (exn + stored) \<times> store" where
  "parse_fragment_in tweet_id (Fragment_Raised e) s = (Inl e, s)"
| "parse_fragment_in tweet_id (Fragment_DM dm_author time_stamp outcomes) s =
     (case new_list s of
        (r, s1) \<Rightarrow>
          (case append_elements (Some r) outcomes s1 of
             (Some e, s2) \<Rightarrow> (Inl e, s2)
           | (None, s2) \<Rightarrow> (Inr (Stored_DM tweet_id time_stamp dm_author (Some r)), s2)))"
| "parse_fragment_in tweet_id (Fragment_Entry None) s = (Inl AttributeError, s)"
| "parse_fragment_in tweet_id (Fragment_Entry (Some text)) s =
     (Inr (Stored_Value (new_DMConversationEntry tweet_id (py_strip text))), s)"
| "parse_fragment_in tweet_id Fragment_None s = (Inr (Stored_Value Empty_Str), s)"

text \<open>The value of a message object in a store.\<close>

fun load :: "store \<Rightarrow> stored \<Rightarrow> message" where
  "load s (Stored_DM tweet_id time_stamp author own) =
     DirectMessage tweet_id time_stamp author (lists s (elements_ref own))"
| "load s (Stored_Value m) = m"

text \<open>\<open>self._max_id_found\<close>, \<open>conversation_set\<close> and the store.\<close>

record process_state =
  st_found :: bool
  st_set :: "stored dict"
  st_store :: store

fun process_loop_in ::
  "parser \<Rightarrow> string \<Rightarrow> (string \<times> string) list \<Rightarrow> process_state \<Rightarrow> process_state" where
  "process_loop_in parse max_id [] st = st"
| "process_loop_in parse max_id (tweet # rest) st =
     (if fst tweet = max_id then st\<lparr>st_found := True\<rparr>
      else
        (case parse_fragment_in (fst tweet) (parse (fst tweet) (snd tweet)) (st_store st) of
           (Inl e, s) \<Rightarrow>
             if e = KeyboardInterrupt then st\<lparr>st_found := True, st_store := s\<rparr>
             else process_loop_in parse max_id rest
                    (st\<lparr>st_set := AList.update (fst tweet)
                                   (Stored_Value (parse_error_entry (fst tweet) (snd tweet)))
                                   (st_set st),
                        st_store := s\<rparr>)
         | (Inr message, s) \<Rightarrow>
             process_loop_in parse max_id rest
               (st\<lparr>st_set := AList.update (fst tweet) message (st_set st), st_store := s\<rparr>)))"

definition process_tweets_in ::
  "parser \<Rightarrow> string dict \<Rightarrow> string \<Rightarrow> bool \<Rightarrow> store \<Rightarrow> process_state" where
  "process_tweets_in parse page max_id found s =
     process_loop_in parse max_id (ordered_tweets page)
       \<lparr>st_found = found, st_set = [], st_store = s\<rparr>"

text \<open>The flag and the values of the messages of a state.\<close>

definition readout :: "process_state \<Rightarrow> bool \<times> message dict" where
  "readout st = (st_found st, map (\<lambda>kv. (fst kv, load (st_store st) (snd kv))) (st_set st))"

text \<open>The lists owned by the messages of a dictionary.\<close>

fun own_refs :: "stored dict \<Rightarrow> ref list" where
  "own_refs [] = []"
| "own_refs ((k, Stored_DM _ _ _ (Some r)) # rest) = r # own_refs rest"
| "own_refs ((k, Stored_DM _ _ _ None) # rest) = own_refs rest"
| "own_refs ((k, Stored_Value _) # rest) = own_refs rest"

text \<open>
  A \<open>DirectMessage\<close> object has its own list, allocated at a reference from \<open>lo\<close>
  up to \<open>hi\<close> (excluded).
\<close>

fun owns_fresh :: "ref \<Rightarrow> ref \<Rightarrow> stored \<Rightarrow> bool" where
  "owns_fresh lo hi (Stored_DM _ _ _ (Some r)) = (lo \<le> r \<and> r < hi)"
| "owns_fresh lo hi (Stored_DM _ _ _ None) = False"
| "owns_fresh lo hi (Stored_Value _) = True"

text \<open>
  The messages of a state each own a list allocated from \<open>lo\<close> on, and no two of them
  own the same list.
\<close>

definition separate :: "ref \<Rightarrow> process_state \<Rightarrow> bool" where
  "separate lo st \<longleftrightarrow>
     lo \<le> next_ref (st_store st)
     \<and> (\<forall>kv \<in> set (st_set st). owns_fresh lo (next_ref (st_store st)) (snd kv))
     \<and> distinct (own_refs (st_set st))"

subsection \<open>Marker lines\<close>

text \<open>The lines of a transcript that match the pattern of the marker.\<close>

definition marker_lines :: "string \<Rightarrow> string list" where
  "marker_lines content = filter (\<lambda>line. match_latest line \<noteq> None) (readlines content)"

text \<open>\<open>os.linesep\<close> is a line feed, or a carriage return and a line feed.\<close>

definition valid_linesep :: "platform \<Rightarrow> bool" where
  "valid_linesep pf \<longleftrightarrow> linesep pf = [CHR 0x0A] \<or> linesep pf = [CHR 0x0D, CHR 0x0A]"

text \<open>A message whose text has a second line that reads like a marker.\<close>

definition two_line_message :: message where
  "two_line_message =
     DirectMessage ''5'' (Some ''1609459200'') (Some ''alice'')
       [DirectMessageText (''hi'' @ [CHR 0x0A] @ ''[LatestTweetID] 7'')]"

subsection \<open>The text of a parse-error entry\<close>

text \<open>The part of the text before the raw value, without the space that ends it.\<close>

definition parse_error_head :: "string \<Rightarrow> string" where
  "parse_error_head tweet_id =
     ''[ParseError] Parsing of tweet '' @ [CHR 0x27] @ tweet_id @ [CHR 0x27]
     @ '' failed. Raw HTML:''"

subsection \<open>Inputs used in examples\<close>

text \<open>A parser for which every fragment is a notice whose text is the raw value.\<close>

definition notice_parser :: parser where
  "notice_parser tweet_id value = Fragment_Entry (Some value)"

definition page_of :: "string dict \<Rightarrow> conversation_json" where
  "page_of page =
     \<lparr>errors = None, max_entry_id = Some ''max'', min_entry_id = Some ''min'',
      items = Some page\<rparr>"

definition errors_of :: "int \<Rightarrow> string \<Rightarrow> conversation_json" where
  "errors_of code message =
     \<lparr>errors = Some [(code, message)], max_entry_id = None, min_entry_id = None,
      items = None\<rparr>"

definition end_of_thread :: conversation_json where
  "end_of_thread = \<lparr>errors = None, max_entry_id = None, min_entry_id = None, items = None\<rparr>"

definition marker_file :: "string \<Rightarrow> string option" where
  "marker_file tweet_id =
     Some (''[DMConversationEntry] joined'' @ [CHR 0x0A] @ ''[LatestTweetID] '' @ tweet_id
           @ [CHR 0x0A])"

definition two_notices :: "string dict" where
  "two_notices = [(''105'', ''a''), (''103'', ''b'')]"

text \<open>A page that reaches the entry of the marker 100.\<close>

definition up_to_marker :: "string dict" where
  "up_to_marker = [(''105'', ''a''), (''103'', ''b''), (''100'', ''c'')]"

text \<open>The state of the loop of \<open>crawl\<close> after the page \<open>two_notices\<close>.\<close>

definition after_two_notices :: crawl_state where
  "after_two_notices =
     \<lparr>tweets = [(''105'', DMConversationEntry ''105'' ''a''),
                (''103'', DMConversationEntry ''103'' ''b'')],
      payload = Some ''min'', max_id_found = False, requests = [None], printed = []\<rparr>"

text \<open>A parser during which the user interrupts the run at the fragment 103.\<close>

definition interrupted_parser :: parser where
  "interrupted_parser tweet_id value =
     (if tweet_id = ''103'' then Fragment_Raised KeyboardInterrupt
      else Fragment_Entry (Some value))"

definition five_notices :: "string dict" where
  "five_notices =
     [(''105'', ''e''), (''103'', ''d''), (''101'', ''c''), (''100'', ''b''), (''99'', ''a'')]"

text \<open>A parser for which every fragment is a message of one text element.\<close>

definition text_parser :: parser where
  "text_parser tweet_id value =
     Fragment_DM (Some ''alice'') (Some ''1609459200'') [Appended (DirectMessageText value)]"

text \<open>
  Three fragments, and what \<open>lxml\<close> does with them: a notice; a paragraph, which is parsed
  and which neither selector matches; a message container without an avatar, followed by
  a line feed, for which \<open>cssselect('img.DMAvatar-image')[0]\<close> raises \<open>IndexError\<close>.
\<close>

definition notice_html :: string where
  "notice_html = ''<div class=DMConversationEntry>joined</div>''"

definition unmatched_html :: string where
  "unmatched_html = ''<p>hello</p>''"

definition no_avatar_html :: string where
  "no_avatar_html = ''<div class=DirectMessage-container></div>'' @ [CHR 0x0A]"

definition selector_parser :: parser where
  "selector_parser tweet_id value =
     (if value = notice_html then Fragment_Entry (Some ''joined'')
      else if value = unmatched_html then Fragment_None
      else if value = no_avatar_html then Fragment_Raised IndexError
      else Fragment_Raised OtherError)"

text \<open>Two pages of a notice and the paragraph, the paragraph older or newer.\<close>

definition unmatched_older :: "string dict" where
  "unmatched_older = [(''105'', notice_html), (''103'', unmatched_html)]"

definition unmatched_newer :: "string dict" where
  "unmatched_newer = [(''105'', unmatched_html), (''103'', notice_html)]"

text \<open>A store that holds the list of the class attribute only.\<close>

definition initial_store :: store where
  "initial_store = \<lparr>lists = (\<lambda>_. []), next_ref = 1\<rparr>"

section \<open>Properties\<close>

subsection \<open>Rendering of a message line\<close>

definition example_message :: message where
  "example_message =
     DirectMessage ''123456789012345678'' (Some ''1609459200'') (Some ''alice'')
       [DirectMessageText ''hello world'']"

lemmas eval_defs =
  py_int_def py_strip_def py_isspace_def is_cont_def int_unsigned_def is_digit_def
  digit_val_def irc_formatted_date_def fromtimestamp_def local_time_def check_year_def
  strftime_def year_str_def dec.simps digits_def
  civil_from_days_def civil_era_def civil_year_def civil_month_def pad2_def pad4_def
  render_elements_def replace_newline_def py_format_def latest_marker_def

lemma render_example_message:
  "utcoffset pf 1609459200 = 0 \<Longrightarrow>
   render_message pf example_message
   = Inr (''[2021-01-01 00:00:00] <alice> hello world'' @ linesep pf)"
  by (simp add: example_message_def eval_defs)

text \<open>
  C4 (as amended). The message with id 123456789012345678, time stamp 1609459200, author
  alice and the single text element "hello world", written where local time is UTC at
  that instant, gives the line \<open>[2021-01-01 00:00:00] <alice> hello world\<close>: the date
  in brackets, the author in angle brackets, the elements joined by spaces, then
  \<open>os.linesep\<close>; the marker line follows it.
\<close>

theorem message_line_rendering:
  "utcoffset pf 1609459200 = 0 \<Longrightarrow>
   write_conversation pf [(''123456789012345678'', example_message)] None ''0''
   = Inr (Some (''[2021-01-01 00:00:00] <alice> hello world'' @ linesep pf
                @ ''[LatestTweetID] 123456789012345678'' @ linesep pf))"
  by (simp add: write_conversation_def render_example_message)
    (simp add: example_message_def latest_marker_def)

theorem message_line_rendering_witness:
  "utcoffset posix_utc 1609459200 = 0
   \<and> write_conversation posix_utc [(''123456789012345678'', example_message)] None ''0''
     = Inr (Some (''[2021-01-01 00:00:00] <alice> hello world'' @ [CHR 0x0A]
                  @ ''[LatestTweetID] 123456789012345678'' @ [CHR 0x0A]))"
  using message_line_rendering [of posix_utc] by (simp add: posix_utc_def)

text \<open>
  The line of the claim, without the angle brackets around the author, is not what is
  written.
\<close>

theorem message_line_rendering_counterexample:
  "write_conversation posix_utc [(''123456789012345678'', example_message)] None ''0''
   \<noteq> Inr (Some (''[2021-01-01 00:00:00] alice hello world'' @ [CHR 0x0A]
                  @ ''[LatestTweetID] 123456789012345678'' @ [CHR 0x0A]))"
  by (simp add: write_conversation_def example_message_def eval_defs posix_utc_def)

subsection \<open>The loop of \<open>crawl\<close>\<close>

lemmas run_defs =
  crawl_def get_latest_tweet_id_def initial_state_def crawl_page_def check_errors_def
  abort_def finish_def write_conversation_def process_tweets_def ordered_tweets_def
  append_conversation_def new_DMConversationEntry_def parse_error_entry_def
  match_latest_def page_of_def errors_of_def end_of_thread_def marker_file_def
  notice_parser_def posix_utc_def utf8_valid.simps cont_byte_def
  two_notices_def after_two_notices_def

lemma crawl_loop_append:
  "crawl_loop parse max_id (pre @ evs) st =
     (case crawl_loop parse max_id pre st of
        Running st' \<Rightarrow> crawl_loop parse max_id evs st'
      | Finished st' \<Rightarrow> Finished st'
      | Failed e st' \<Rightarrow> Failed e st')"
proof (induction pre arbitrary: st)
  case Nil
  show ?case by (cases evs) simp_all
next
  case (Cons ev pre)
  show ?case by (simp add: Cons.IH split: loop_result.splits)
qed

lemma crawl_loop_Running:
  "crawl_loop parse max_id pre st = Running st' \<Longrightarrow> \<not> max_id_found st'"
  by (induction pre arbitrary: st) (auto split: if_splits loop_result.splits)

lemma crawl_loop_found:
  "max_id_found st \<Longrightarrow> crawl_loop parse max_id evs st = Finished st"
  by (cases evs) simp_all

lemma crawl_after_prefix:
  assumes "get_latest_tweet_id file = Inr max_id"
    and "crawl_loop parse max_id pre (initial_state found) = Running st"
  shows "crawl pf parse (pre @ ev # rest) found file =
     (case crawl_page parse max_id ev st of
        Running st' \<Rightarrow>
          (case crawl_loop parse max_id rest st' of
             Running st'' \<Rightarrow> None
           | Failed e st'' \<Rightarrow> Some (abort e st'' file)
           | Finished st'' \<Rightarrow> Some (finish pf st'' file max_id))
      | Finished st' \<Rightarrow> Some (finish pf st' file max_id)
      | Failed e st' \<Rightarrow> Some (abort e st' file))"
  using assms crawl_loop_Running[OF assms(2)]
  by (simp add: crawl_def crawl_loop_append split: loop_result.splits)

lemma threads_loop_append:
  "threads_loop (pre @ evs) st =
     (case threads_loop pre st of
        Running st' \<Rightarrow> threads_loop evs st'
      | Finished st' \<Rightarrow> Finished st'
      | Failed e st' \<Rightarrow> Failed e st')"
  by (induction pre arbitrary: st) (simp_all split: loop_result.splits)

lemma finish_written:
  "written (finish pf st file max_id) = Some (tweets st, max_id)
   \<and> requested (finish pf st file max_id) = requests st"
  by (simp add: finish_def split: sum.splits)

lemma marker_file_100: "get_latest_tweet_id (marker_file ''100'') = Inr ''100''"
  by (simp add: run_defs eval_defs)

lemma loop_two_notices:
  "crawl_loop notice_parser ''100'' [Response (page_of two_notices) None] (initial_state False)
   = Running after_two_notices"
  by (simp add: run_defs eval_defs)

subsection \<open>Beginning of the thread\<close>

text \<open>
  C5 (as amended). A response without an \<open>errors\<close> array that lacks \<open>max_entry_id\<close>
  ends the pagination loop normally, whatever its other fields: no further request is
  made and \<open>write_conversation\<close> is called with the entries accumulated before it. The
  test is on \<open>max_entry_id\<close>, not on \<open>min_entry_id\<close>.
\<close>

theorem begin_of_thread:
  assumes "get_latest_tweet_id file = Inr max_id"
    and "crawl_loop parse max_id pre (initial_state False) = Running st"
    and "errors json = None"
    and "max_entry_id json = None"
  shows "\<exists>r. crawl pf parse (pre @ Response json slept # rest) False file = Some r
           \<and> r = finish pf (st\<lparr>requests := requests st @ [payload st]\<rparr>) file max_id
           \<and> written r = Some (tweets st, max_id)
           \<and> requested r = requests st @ [payload st]"
  using assms
  by (simp add: crawl_after_prefix crawl_page_def check_errors_def finish_written)

theorem begin_of_thread_witness:
  "get_latest_tweet_id (marker_file ''100'') = Inr ''100''
   \<and> crawl_loop notice_parser ''100'' [Response (page_of two_notices) None]
       (initial_state False) = Running after_two_notices
   \<and> errors end_of_thread = None \<and> max_entry_id end_of_thread = None
   \<and> (\<exists>r. crawl posix_utc notice_parser
              ([Response (page_of two_notices) None] @ Response end_of_thread None # [])
              False (marker_file ''100'') = Some r
          \<and> written r = Some (tweets after_two_notices, ''100'')
          \<and> requested r = requests after_two_notices @ [payload after_two_notices])"
proof -
  have e: "errors end_of_thread = None" "max_entry_id end_of_thread = None"
    by (simp_all add: end_of_thread_def)
  from begin_of_thread [OF marker_file_100 loop_two_notices e,
      where pf = posix_utc and slept = None and rest = "[]"]
  show ?thesis using marker_file_100 loop_two_notices e by blast
qed

text \<open>
  A response that has \<open>max_entry_id\<close> and lacks \<open>min_entry_id\<close> does not end the loop
  normally: \<open>json['min_entry_id']\<close> raises, and the exception leaves \<open>crawl\<close>.
\<close>

theorem begin_of_thread_counterexample:
  "crawl posix_utc notice_parser
     [Response \<lparr>errors = None, max_entry_id = Some ''9'', min_entry_id = None,
                items = Some [(''9'', ''hello'')]\<rparr> None] False None
   = Some \<lparr>raised = Some (KeyError ''min_entry_id''), written = None, transcript = None,
           requested = [None], console = [], found_after = False\<rparr>"
  by (simp add: crawl_def get_latest_tweet_id_def initial_state_def crawl_page_def
      check_errors_def abort_def)

subsection \<open>The \<open>errors\<close> array\<close>

text \<open>
  C6 (as amended). A response whose body has a non-empty \<open>errors\<close> array is fatal for
  every error code, in \<open>crawl\<close> and in \<open>get_threads\<close> alike: the same exception is
  raised, \<open>write_conversation\<close> is not called and the transcript is left as it was, and
  \<open>get_threads\<close> returns no list. The code 326 differs only in that the guidance about
  the locked account is printed before the details of the error.
\<close>

theorem errors_array_fatal:
  assumes "get_latest_tweet_id file = Inr max_id"
    and "crawl_loop parse max_id pre (initial_state False) = Running st"
    and "errors json = Some ((code, message) # others)"
    and "threads_loop tpre threads_initial = Running tst"
    and "threads_errors tjson = Some ((code, message) # others)"
  shows "crawl pf parse (pre @ Response json slept # rest) False file
         = Some \<lparr>raised = Some (Exception
                     ''Stopping execution due to parsing error while retrieving the tweets.''),
                 written = None, transcript = file,
                 requested = requests st @ [payload st],
                 console = printed st
                   @ [''An error occured during the parsing of the tweets.'' @ [CHR 0x0A]]
                   @ (if code = 326 then [lock_guidance] else [])
                   @ [error_details code message],
                 found_after = False\<rparr>
       \<and> get_threads (tpre @ Response tjson slept # trest)
         = Some (Inl (Exception
                   ''Stopping execution due to parsing error while retrieving the conversations''),
                 threads_printed tst
                   @ [''An error occured during the parsing of the conversions.'' @ [CHR 0x0A]]
                   @ (if code = 326 then [lock_guidance] else [])
                   @ [error_details code message])"
  using assms crawl_loop_Running[OF assms(2)]
  by (simp add: crawl_after_prefix crawl_page_def check_errors_def abort_def
      get_threads_def threads_loop_append threads_page_def)

theorem errors_array_fatal_witness:
  "get_latest_tweet_id (marker_file ''100'') = Inr ''100''
   \<and> crawl_loop notice_parser ''100'' [Response (page_of two_notices) None]
       (initial_state False) = Running after_two_notices
   \<and> errors (errors_of 32 ''Could not authenticate you.'')
     = Some ((32, ''Could not authenticate you.'') # [])
   \<and> threads_loop [] threads_initial = Running threads_initial
   \<and> threads_errors \<lparr>threads_errors = Some [(32, ''Could not authenticate you.'')],
                      inner_trusted = None, trusted = None\<rparr>
     = Some ((32, ''Could not authenticate you.'') # [])
   \<and> crawl posix_utc notice_parser
       ([Response (page_of two_notices) None]
        @ Response (errors_of 32 ''Could not authenticate you.'') None # [])
       False (marker_file ''100'')
     = Some \<lparr>raised = Some (Exception
                 ''Stopping execution due to parsing error while retrieving the tweets.''),
             written = None, transcript = marker_file ''100'',
             requested = requests after_two_notices @ [payload after_two_notices],
             console = printed after_two_notices
               @ [''An error occured during the parsing of the tweets.'' @ [CHR 0x0A]]
               @ (if (32::int) = 326 then [lock_guidance] else [])
               @ [error_details 32 ''Could not authenticate you.''],
             found_after = False\<rparr>
   \<and> get_threads ([] @ Response
        \<lparr>threads_errors = Some [(32, ''Could not authenticate you.'')],
         inner_trusted = None, trusted = None\<rparr> None # [])
     = Some (Inl (Exception
         ''Stopping execution due to parsing error while retrieving the conversations''),
         threads_printed threads_initial
           @ [''An error occured during the parsing of the conversions.'' @ [CHR 0x0A]]
           @ (if (32::int) = 326 then [lock_guidance] else [])
           @ [error_details 32 ''Could not authenticate you.''])"
proof -
  have e: "errors (errors_of 32 ''Could not authenticate you.'')
           = Some ((32, ''Could not authenticate you.'') # [])"
    by (simp add: errors_of_def)
  have t: "threads_loop [] threads_initial = Running threads_initial"
    by simp
  have te: "threads_errors \<lparr>threads_errors = Some [(32, ''Could not authenticate you.'')],
                             inner_trusted = None, trusted = None\<rparr>
            = Some ((32, ''Could not authenticate you.'') # [])"
    by simp
  from errors_array_fatal [OF marker_file_100 loop_two_notices e t te,
      where pf = posix_utc and slept = None and rest = "[]" and trest = "[]"]
  show ?thesis using marker_file_100 loop_two_notices e t te by blast
qed

text \<open>
  A page of two entries, then a response with an \<open>errors\<close> array whose code is not 326:
  the run ends with the exception, the two entries are not written and the transcript
  keeps its old content.
\<close>

theorem errors_array_counterexample:
  "crawl posix_utc notice_parser
     [Response (page_of two_notices) None,
      Response (errors_of 32 ''Could not authenticate you.'') None]
     False (marker_file ''100'')
   = Some \<lparr>raised = Some (Exception
               ''Stopping execution due to parsing error while retrieving the tweets.''),
           written = None, transcript = marker_file ''100'',
           requested = [None, Some ''min''],
           console = [''An error occured during the parsing of the tweets.'' @ [CHR 0x0A],
                      error_details 32 ''Could not authenticate you.''],
           found_after = False\<rparr>"
proof -
  have "crawl_page notice_parser ''100''
          (Response (errors_of 32 ''Could not authenticate you.'') None) after_two_notices
        = Failed (Exception
            ''Stopping execution due to parsing error while retrieving the tweets.'')
            (after_two_notices
               \<lparr>requests := [None, Some ''min''],
                printed := [''An error occured during the parsing of the tweets.''
                             @ [CHR 0x0A],
                           error_details 32 ''Could not authenticate you.'']\<rparr>)"
    by (simp add: crawl_page_def check_errors_def errors_of_def after_two_notices_def)
  then show ?thesis
    using crawl_after_prefix [OF marker_file_100 loop_two_notices, of posix_utc
        "Response (errors_of 32 ''Could not authenticate you.'') None" "[]"]
    by (simp add: abort_def after_two_notices_def)
qed

subsection \<open>Cancellation\<close>

lemma process_loop_interrupted:
  "(tweet_id, raw) \<in> set page \<Longrightarrow>
   parse_fragment tweet_id (parse tweet_id raw) = Inl KeyboardInterrupt \<Longrightarrow>
   fst (process_loop parse max_id page st) = True"
proof (induction page arbitrary: st)
  case Nil
  then show ?case by simp
next
  case (Cons tweet page)
  show ?case
  proof (cases "tweet = (tweet_id, raw)")
    case True
    with Cons.prems show ?thesis by simp
  next
    case False
    with Cons.prems have "(tweet_id, raw) \<in> set page" by simp
    from Cons.IH [OF this Cons.prems(2)] show ?thesis
      by (simp split: sum.splits)
  qed
qed

lemma set_ordered_tweets: "set (ordered_tweets page) = set page"
  by (simp add: ordered_tweets_def)

lemma process_tweets_interrupted:
  "(tweet_id, raw) \<in> set page \<Longrightarrow>
   parse_fragment tweet_id (parse tweet_id raw) = Inl KeyboardInterrupt \<Longrightarrow>
   fst (process_tweets parse page max_id found) = True"
  unfolding process_tweets_def
  by (rule process_loop_interrupted [where tweet_id = tweet_id and raw = raw])
     (simp_all add: set_ordered_tweets)

lemma crawl_page_items:
  assumes "errors json = None" "max_entry_id json = Some m" "min_entry_id json = Some c"
    "items json = Some page"
  shows "crawl_page parse max_id (Response json slept) st =
    (case slept of
       None \<Rightarrow> Running (page_state parse max_id c page st)
     | Some e \<Rightarrow>
         if e = KeyboardInterrupt then Finished (page_state parse max_id c page st)
         else Failed e (page_state parse max_id c page st))"
  using assms
  by (simp add: crawl_page_def check_errors_def page_state_def Let_def split: option.splits)

lemma process_loop_marker:
  "(max_id, raw) \<in> set page \<Longrightarrow> fst (process_loop parse max_id page st) = True"
proof (induction page arbitrary: st)
  case Nil
  then show ?case by simp
next
  case (Cons tweet page)
  show ?case
  proof (cases "fst tweet = max_id")
    case True
    then show ?thesis by (cases tweet) simp
  next
    case False
    with Cons.prems have "(max_id, raw) \<in> set page" by auto
    from Cons.IH [OF this] False show ?thesis
      by (cases tweet) (simp split: sum.splits)
  qed
qed

lemma process_tweets_marker:
  "(max_id, raw) \<in> set page \<Longrightarrow> fst (process_tweets parse page max_id found) = True"
  unfolding process_tweets_def
  by (rule process_loop_marker [where raw = raw]) (simp add: set_ordered_tweets)

lemma finish_interrupted_103:
  "finish posix_utc
     (page_state interrupted_parser ''100'' ''min'' two_notices (initial_state False))
     (marker_file ''100'') ''100''
   = \<lparr>raised = None,
      written = Some ([(''105'', DMConversationEntry ''105'' ''a'')], ''100''),
      transcript = Some (''[DMConversationEntry] joined'' @ [CHR 0x0A]
                         @ ''[DMConversationEntry] a'' @ [CHR 0x0A]
                         @ ''[LatestTweetID] 105'' @ [CHR 0x0A]),
      requested = [None], console = [], found_after = False\<rparr>"
  by (simp add: page_state_def interrupted_parser_def run_defs eval_defs)

lemma finish_up_to_marker:
  "finish posix_utc
     (page_state notice_parser ''100'' ''min'' up_to_marker (initial_state False))
     (marker_file ''100'') ''100''
   = \<lparr>raised = None,
      written = Some ([(''105'', DMConversationEntry ''105'' ''a''),
                       (''103'', DMConversationEntry ''103'' ''b'')], ''100''),
      transcript = Some (''[DMConversationEntry] joined'' @ [CHR 0x0A]
                         @ ''[DMConversationEntry] b'' @ [CHR 0x0A]
                         @ ''[DMConversationEntry] a'' @ [CHR 0x0A]
                         @ ''[LatestTweetID] 105'' @ [CHR 0x0A]),
      requested = [None], console = [], found_after = False\<rparr>"
  by (simp add: page_state_def up_to_marker_def run_defs eval_defs)

lemma finish_nothing:
  "finish posix_utc ((initial_state False)\<lparr>requests := requests (initial_state False) @ [payload (initial_state False)]\<rparr>)
     (marker_file ''100'') ''100''
   = \<lparr>raised = None, written = Some ([], ''100''), transcript = marker_file ''100'',
      requested = [None], console = [], found_after = False\<rparr>"
  by (simp add: initial_state_def finish_def write_conversation_def)


text \<open>
  C8 (as amended). After any pages that left the loop running, a user interrupt during
  the next request, during the delay after the next page, or during the parsing of a
  fragment of the next page ends the loop: no request after that one is made, whatever
  the server would have answered, and \<open>write_conversation\<close> is called with the entries
  accumulated so far (for an interrupt after or during a page, those of the page
  included). The loop ends in the same way, with the call of \<open>write_conversation\<close> and
  no further request, when the next page holds the entry of the marker (the incremental
  stop) and when the next response is without \<open>max_entry_id\<close> (the beginning of the
  thread).
\<close>

theorem cancellation_writes_back:
  assumes "get_latest_tweet_id file = Inr max_id"
    and "crawl_loop parse max_id pre (initial_state False) = Running st"
    and "errors json = None" and "max_entry_id json = Some m"
    and "min_entry_id json = Some c" and "items json = Some page"
  shows "crawl pf parse (pre @ Request_Raised KeyboardInterrupt # rest) False file
         = Some (finish pf (st\<lparr>requests := requests st @ [payload st]\<rparr>) file max_id)
       \<and> crawl pf parse (pre @ Response json (Some KeyboardInterrupt) # rest) False file
         = Some (finish pf (page_state parse max_id c page st) file max_id)
       \<and> ((tweet_id, raw) \<in> set page
            \<and> parse_fragment tweet_id (parse tweet_id raw) = Inl KeyboardInterrupt
          \<longrightarrow> crawl pf parse (pre @ Response json None # rest) False file
              = Some (finish pf (page_state parse max_id c page st) file max_id))
       \<and> (\<forall>s. written (finish pf s file max_id) = Some (tweets s, max_id)
              \<and> requested (finish pf s file max_id) = requests s)
       \<and> requests (page_state parse max_id c page st) = requests st @ [payload st]
       \<and> ((max_id, marked) \<in> set page
          \<longrightarrow> crawl pf parse (pre @ Response json None # rest) False file
              = Some (finish pf (page_state parse max_id c page st) file max_id))
       \<and> (errors first = None \<and> max_entry_id first = None
          \<longrightarrow> crawl pf parse (pre @ Response first slept # rest) False file
              = Some (finish pf (st\<lparr>requests := requests st @ [payload st]\<rparr>) file max_id))
       \<and> tweets (page_state parse max_id c page st)
         = append_conversation (snd (process_tweets parse page max_id False)) (tweets st)"
proof -
  have 1: "crawl pf parse (pre @ Request_Raised KeyboardInterrupt # rest) False file
         = Some (finish pf (st\<lparr>requests := requests st @ [payload st]\<rparr>) file max_id)"
    by (simp add: crawl_after_prefix [OF assms(1,2)] crawl_page_def)
  have 2: "crawl pf parse (pre @ Response json (Some KeyboardInterrupt) # rest) False file
         = Some (finish pf (page_state parse max_id c page st) file max_id)"
    by (simp add: crawl_after_prefix [OF assms(1,2)] crawl_page_items [OF assms(3-6)])
  have found: "crawl pf parse (pre @ Response json None # rest) False file
         = Some (finish pf (page_state parse max_id c page st) file max_id)"
    if "max_id_found (page_state parse max_id c page st)"
    using that
    by (simp add: crawl_after_prefix [OF assms(1,2)] crawl_page_items [OF assms(3-6)]
        crawl_loop_found)
  have 3: "crawl pf parse (pre @ Response json None # rest) False file
         = Some (finish pf (page_state parse max_id c page st) file max_id)"
    if "(tweet_id, raw) \<in> set page"
      and "parse_fragment tweet_id (parse tweet_id raw) = Inl KeyboardInterrupt"
    using process_tweets_interrupted [where parse = parse, OF that]
    by (intro found) (simp add: page_state_def)
  have 4: "crawl pf parse (pre @ Response json None # rest) False file
         = Some (finish pf (page_state parse max_id c page st) file max_id)"
    if "(max_id, marked) \<in> set page"
    using process_tweets_marker [where parse = parse, OF that]
    by (intro found) (simp add: page_state_def)
  have 5: "crawl pf parse (pre @ Response first slept # rest) False file
         = Some (finish pf (st\<lparr>requests := requests st @ [payload st]\<rparr>) file max_id)"
    if "errors first = None" and "max_entry_id first = None"
    using that
    by (simp add: crawl_after_prefix [OF assms(1,2)] crawl_page_def check_errors_def)
  have 6: "tweets (page_state parse max_id c page st)
         = append_conversation (snd (process_tweets parse page max_id False)) (tweets st)"
    using crawl_loop_Running [OF assms(2)] by (simp add: page_state_def)
  show ?thesis using 1 2 3 4 5 6 by (simp add: finish_written page_state_def)
qed

theorem cancellation_writes_back_witness:
  "get_latest_tweet_id (marker_file ''100'') = Inr ''100''
   \<and> crawl_loop interrupted_parser ''100'' [] (initial_state False)
     = Running (initial_state False)
   \<and> errors (page_of two_notices) = None \<and> max_entry_id (page_of two_notices) = Some ''max''
   \<and> min_entry_id (page_of two_notices) = Some ''min''
   \<and> items (page_of two_notices) = Some two_notices
   \<and> (''103'', ''b'') \<in> set two_notices
   \<and> parse_fragment ''103'' (interrupted_parser ''103'' ''b'') = Inl KeyboardInterrupt
   \<and> crawl posix_utc interrupted_parser
       [Response (page_of two_notices) None, Response (page_of five_notices) None]
       False (marker_file ''100'')
     = Some \<lparr>raised = None,
             written = Some ([(''105'', DMConversationEntry ''105'' ''a'')], ''100''),
             transcript = Some (''[DMConversationEntry] joined'' @ [CHR 0x0A]
                                @ ''[DMConversationEntry] a'' @ [CHR 0x0A]
                                @ ''[LatestTweetID] 105'' @ [CHR 0x0A]),
             requested = [None], console = [], found_after = False\<rparr>
   \<and> crawl_loop notice_parser ''100'' [] (initial_state False) = Running (initial_state False)
   \<and> errors (page_of up_to_marker) = None \<and> max_entry_id (page_of up_to_marker) = Some ''max''
   \<and> min_entry_id (page_of up_to_marker) = Some ''min''
   \<and> items (page_of up_to_marker) = Some up_to_marker
   \<and> (''100'', ''c'') \<in> set up_to_marker
   \<and> crawl posix_utc notice_parser
       [Response (page_of up_to_marker) None, Response (page_of five_notices) None]
       False (marker_file ''100'')
     = Some \<lparr>raised = None,
             written = Some ([(''105'', DMConversationEntry ''105'' ''a''),
                              (''103'', DMConversationEntry ''103'' ''b'')], ''100''),
             transcript = Some (''[DMConversationEntry] joined'' @ [CHR 0x0A]
                                @ ''[DMConversationEntry] b'' @ [CHR 0x0A]
                                @ ''[DMConversationEntry] a'' @ [CHR 0x0A]
                                @ ''[LatestTweetID] 105'' @ [CHR 0x0A]),
             requested = [None], console = [], found_after = False\<rparr>
   \<and> errors end_of_thread = None \<and> max_entry_id end_of_thread = None
   \<and> crawl posix_utc notice_parser
       [Response end_of_thread None, Response (page_of five_notices) None]
       False (marker_file ''100'')
     = Some \<lparr>raised = None, written = Some ([], ''100''), transcript = marker_file ''100'',
             requested = [None], console = [], found_after = False\<rparr>"
proof -
  have l: "crawl_loop interrupted_parser ''100'' [] (initial_state False)
           = Running (initial_state False)"
    "crawl_loop notice_parser ''100'' [] (initial_state False) = Running (initial_state False)"
    by (simp_all add: initial_state_def)
  have j: "errors (page_of two_notices) = None"
    "max_entry_id (page_of two_notices) = Some ''max''"
    "min_entry_id (page_of two_notices) = Some ''min''"
    "items (page_of two_notices) = Some two_notices"
    by (simp_all add: page_of_def)
  have j': "errors (page_of up_to_marker) = None"
    "max_entry_id (page_of up_to_marker) = Some ''max''"
    "min_entry_id (page_of up_to_marker) = Some ''min''"
    "items (page_of up_to_marker) = Some up_to_marker"
    by (simp_all add: page_of_def)
  have e: "errors end_of_thread = None" "max_entry_id end_of_thread = None"
    by (simp_all add: end_of_thread_def)
  have m: "(''103'', ''b'') \<in> set two_notices" "(''100'', ''c'') \<in> set up_to_marker"
    by (simp_all add: two_notices_def up_to_marker_def)
  have k: "parse_fragment ''103'' (interrupted_parser ''103'' ''b'') = Inl KeyboardInterrupt"
    by (simp add: interrupted_parser_def)
  note a = cancellation_writes_back [OF marker_file_100 l(1) j,
      where pf = posix_utc and rest = "[Response (page_of five_notices) None]"
        and tweet_id = "''103''" and raw = "''b''"]
  note b = cancellation_writes_back [OF marker_file_100 l(2) j',
      where pf = posix_utc and rest = "[Response (page_of five_notices) None]"
        and marked = "''c''" and first = end_of_thread and slept = None]
  have A: "crawl posix_utc interrupted_parser
       [Response (page_of two_notices) None, Response (page_of five_notices) None]
       False (marker_file ''100'')
     = Some (finish posix_utc
         (page_state interrupted_parser ''100'' ''min'' two_notices (initial_state False))
         (marker_file ''100'') ''100'')"
    using a m(1) k by simp
  have B: "crawl posix_utc notice_parser
       [Response (page_of up_to_marker) None, Response (page_of five_notices) None]
       False (marker_file ''100'')
     = Some (finish posix_utc
         (page_state notice_parser ''100'' ''min'' up_to_marker (initial_state False))
         (marker_file ''100'') ''100'')"
    using b m(2) by simp
  have C: "crawl posix_utc notice_parser
       [Response end_of_thread None, Response (page_of five_notices) None]
       False (marker_file ''100'')
     = Some (finish posix_utc ((initial_state False)\<lparr>requests := requests (initial_state False) @ [payload (initial_state False)]\<rparr>)
         (marker_file ''100'') ''100'')"
    using b e by simp
  show ?thesis
    unfolding A B C finish_interrupted_103 finish_up_to_marker finish_nothing
    using marker_file_100 l j j' e m k by simp
qed

text \<open>
  A run that reached the loop does not always end in the write-back: after a page of
  two entries, a response with the \<open>errors\<close> array of a locked account makes \<open>crawl\<close>
  raise, and \<open>write_conversation\<close> is not called.
\<close>

theorem cancellation_counterexample:
  "crawl posix_utc notice_parser
     [Response (page_of two_notices) None, Response (errors_of 326 ''locked'') None]
     False (marker_file ''100'')
   = Some \<lparr>raised = Some (Exception
               ''Stopping execution due to parsing error while retrieving the tweets.''),
           written = None, transcript = marker_file ''100'',
           requested = [None, Some ''min''],
           console = [''An error occured during the parsing of the tweets.'' @ [CHR 0x0A],
                      lock_guidance, error_details 326 ''locked''],
           found_after = False\<rparr>"
proof -
  have "crawl_page notice_parser ''100'' (Response (errors_of 326 ''locked'') None)
          after_two_notices
        = Failed (Exception
            ''Stopping execution due to parsing error while retrieving the tweets.'')
            (after_two_notices
               \<lparr>requests := [None, Some ''min''],
                printed := [''An error occured during the parsing of the tweets.''
                             @ [CHR 0x0A],
                           lock_guidance, error_details 326 ''locked'']\<rparr>)"
    by (simp add: crawl_page_def check_errors_def errors_of_def after_two_notices_def)
  then show ?thesis
    using crawl_after_prefix [OF marker_file_100 loop_two_notices, of posix_utc
        "Response (errors_of 326 ''locked'') None" "[]"]
    by (simp add: abort_def after_two_notices_def)
qed

subsection \<open>A run without new messages\<close>

lemma ordered_tweets_head:
  assumes "(max_id, raw) \<in> set page" and "\<forall>k \<in> fst ` set page. k \<le> max_id"
  shows "\<exists>tweet rest. ordered_tweets page = tweet # rest \<and> fst tweet = max_id"
proof -
  let ?xs = "sort_key fst page"
  have s: "set ?xs = set page" by (rule set_sort)
  have "?xs \<noteq> []"
  proof
    assume e: "?xs = []"
    from s [unfolded e] assms(1) show False by simp
  qed
  then obtain ys y where xs: "?xs = ys @ [y]" by (cases ?xs rule: rev_cases) auto
  have "sorted (map fst ?xs)" by simp
  then have le: "\<forall>k \<in> fst ` set ys. k \<le> fst y"
    unfolding xs by (auto simp: sorted_append)
  have sp: "set page = set ys \<union> {y}" using s [unfolded xs] by auto
  then have "fst y \<le> max_id" using assms(2) by auto
  moreover have "max_id \<le> fst y" using assms(1) le unfolding sp by force
  ultimately have "fst y = max_id" by simp
  then show ?thesis by (simp add: ordered_tweets_def xs)
qed

lemma process_tweets_marker_first:
  assumes "(max_id, raw) \<in> set page" and "\<forall>k \<in> fst ` set page. k \<le> max_id"
  shows "process_tweets parse page max_id found = (True, [])"
proof -
  from ordered_tweets_head [OF assms] obtain tweet rest
    where "ordered_tweets page = tweet # rest" "fst tweet = max_id" by blast
  then show ?thesis by (simp add: process_tweets_def)
qed


lemma write_conversation_empty: "write_conversation pf [] file max_id = Inr file"
  by (simp add: write_conversation_def)

lemma finish_empty:
  "tweets st = [] \<Longrightarrow>
   finish pf st file max_id
   = \<lparr>raised = None, written = Some ([], max_id), transcript = file,
      requested = requests st, console = printed st, found_after = False\<rparr>"
  by (simp add: finish_def write_conversation_empty)

lemma crawl_page_end_of_thread:
  "crawl_page parse max_id (Response end_of_thread slept) st
   = Finished (st\<lparr>requests := requests st @ [payload st]\<rparr>)"
  by (simp add: crawl_page_def check_errors_def end_of_thread_def)

lemma loop_400:
  "crawl_loop notice_parser ''500'' [Response (page_of [(''400'', ''older'')]) None]
     (initial_state False)
   = Running \<lparr>tweets = [(''400'', DMConversationEntry ''400'' ''older'')],
       payload = Some ''min'', max_id_found = False, requests = [None], printed = []\<rparr>"
  by (simp add: run_defs eval_defs)

lemma marker_file_500: "get_latest_tweet_id (marker_file ''500'') = Inr ''500''"
  by (simp add: run_defs eval_defs)

lemma write_400:
  "write_conversation posix_utc [(''400'', DMConversationEntry ''400'' ''older'')]
     (marker_file ''500'') ''500''
   = Inr (Some (''[DMConversationEntry] joined'' @ [CHR 0x0A]
                @ ''[DMConversationEntry] older'' @ [CHR 0x0A]
                @ ''[LatestTweetID] 400'' @ [CHR 0x0A]))"
  by (simp add: write_conversation_def marker_file_def latest_marker_def posix_utc_def)

text \<open>
  C9 (as amended). When the transcript gives the marker \<open>max_id\<close> and the first response
  either signals the beginning of the thread or is a page on which \<open>max_id\<close> is present
  and no id sorts after it (the ids being compared as strings, as \<open>sorted\<close> does), the
  run makes that one request, calls \<open>write_conversation\<close> with no entry and leaves the
  transcript as it was; \<open>write_conversation\<close> with no entry never changes the file.
\<close>

theorem no_new_messages_no_change:
  assumes "get_latest_tweet_id file = Inr max_id"
    and "errors json = None"
    and "max_entry_id json = None \<or>
         (\<exists>m c page raw. max_entry_id json = Some m \<and> min_entry_id json = Some c
            \<and> items json = Some page \<and> (max_id, raw) \<in> set page
            \<and> (\<forall>k \<in> fst ` set page. k \<le> max_id))"
    and "slept = None \<or> slept = Some KeyboardInterrupt"
  shows "crawl pf parse (Response json slept # rest) False file
         = Some \<lparr>raised = None, written = Some ([], max_id), transcript = file,
                 requested = [None], console = [], found_after = False\<rparr>
       \<and> write_conversation pf [] file max_id = Inr file"
proof -
  have l: "crawl_loop parse max_id [] (initial_state False) = Running (initial_state False)"
    by (simp add: initial_state_def)
  note step = crawl_after_prefix [OF assms(1) l, of pf "Response json slept" rest, simplified]
  from assms(3) have "crawl pf parse (Response json slept # rest) False file
         = Some \<lparr>raised = None, written = Some ([], max_id), transcript = file,
                 requested = [None], console = [], found_after = False\<rparr>"
  proof
    assume "max_entry_id json = None"
    then have "crawl_page parse max_id (Response json slept) (initial_state False)
               = Finished ((initial_state False)\<lparr>requests := [None]\<rparr>)"
      using assms(2) by (simp add: crawl_page_def check_errors_def initial_state_def)
    then show ?thesis
      by (simp add: step finish_empty initial_state_def)
  next
    assume "\<exists>m c page raw. max_entry_id json = Some m \<and> min_entry_id json = Some c
            \<and> items json = Some page \<and> (max_id, raw) \<in> set page
            \<and> (\<forall>k \<in> fst ` set page. k \<le> max_id)"
    then obtain m c page raw where j: "max_entry_id json = Some m"
      "min_entry_id json = Some c" "items json = Some page"
      and p: "(max_id, raw) \<in> set page" "\<forall>k \<in> fst ` set page. k \<le> max_id"
      by blast
    let ?st = "page_state parse max_id c page (initial_state False)"
    have ps: "?st = \<lparr>tweets = [], payload = Some c, max_id_found = True, requests = [None],
                     printed = []\<rparr>"
      by (simp add: page_state_def process_tweets_marker_first [OF p] initial_state_def
          append_conversation_def)
    have f: "finish pf ?st file max_id
             = \<lparr>raised = None, written = Some ([], max_id), transcript = file,
                requested = [None], console = [], found_after = False\<rparr>"
      by (simp add: ps finish_empty)
    have fin: "crawl_loop parse max_id rest ?st = Finished ?st"
      by (rule crawl_loop_found) (simp add: ps)
    from assms(4) show ?thesis
    proof
      assume "slept = None"
      then show ?thesis
        using step by (simp add: crawl_page_items [OF assms(2) j] fin f)
    next
      assume "slept = Some KeyboardInterrupt"
      then show ?thesis
        using step by (simp add: crawl_page_items [OF assms(2) j] f)
    qed
  qed
  then show ?thesis by (simp add: write_conversation_empty)
qed

theorem no_new_messages_no_change_witness:
  "get_latest_tweet_id (marker_file ''500'') = Inr ''500''
   \<and> errors (page_of [(''500'', ''newest''), (''400'', ''older'')]) = None
   \<and> (''500'', ''newest'') \<in> set [(''500'', ''newest''), (''400'', ''older'')]
   \<and> ''500'' \<le> ''500'' \<and> ''400'' \<le> ''500''
   \<and> crawl posix_utc notice_parser
       (Response (page_of [(''500'', ''newest''), (''400'', ''older'')]) None # [])
       False (marker_file ''500'')
     = Some \<lparr>raised = None, written = Some ([], ''500''), transcript = marker_file ''500'',
             requested = [None], console = [], found_after = False\<rparr>"
proof -
  let ?page = "[(''500'', ''newest''), (''400'', ''older'')]"
  have e: "errors (page_of ?page) = None"
    by (simp add: page_of_def)
  have m: "(''500'', ''newest'') \<in> set ?page"
    by simp
  have le: "\<forall>k \<in> fst ` set ?page. k \<le> ''500''"
    by simp
  have j: "max_entry_id (page_of ?page) = None \<or>
         (\<exists>m c page raw. max_entry_id (page_of ?page) = Some m
            \<and> min_entry_id (page_of ?page) = Some c
            \<and> items (page_of ?page) = Some page \<and> (''500'', raw) \<in> set page
            \<and> (\<forall>k \<in> fst ` set page. k \<le> ''500''))"
    using m le by (simp add: page_of_def)
  have s: "(None :: exn option) = None \<or> None = Some KeyboardInterrupt"
    by simp
  from no_new_messages_no_change [OF marker_file_500 e j s,
      where pf = posix_utc and parse = notice_parser and rest = "[]"]
  show ?thesis using marker_file_500 e m by simp
qed

text \<open>
  The marker is 500 and the server no longer has that message: its only page holds the
  older message 400. Nothing is newer than the marker, yet 400 is not the marker, so it
  is processed and appended, and the marker is rewritten to 400.
\<close>

theorem no_new_messages_counterexample:
  "crawl posix_utc notice_parser
     [Response (page_of [(''400'', ''older'')]) None, Response end_of_thread None]
     False (marker_file ''500'')
   = Some \<lparr>raised = None,
           written = Some ([(''400'', DMConversationEntry ''400'' ''older'')], ''500''),
           transcript = Some (''[DMConversationEntry] joined'' @ [CHR 0x0A]
                              @ ''[DMConversationEntry] older'' @ [CHR 0x0A]
                              @ ''[LatestTweetID] 400'' @ [CHR 0x0A]),
           requested = [None, Some ''min''], console = [], found_after = False\<rparr>
   \<and> Some (''[DMConversationEntry] joined'' @ [CHR 0x0A]
           @ ''[DMConversationEntry] older'' @ [CHR 0x0A]
           @ ''[LatestTweetID] 400'' @ [CHR 0x0A]) \<noteq> marker_file ''500''"
proof -
  have "crawl posix_utc notice_parser
     ([Response (page_of [(''400'', ''older'')]) None] @ Response end_of_thread None # [])
     False (marker_file ''500'')
   = Some \<lparr>raised = None,
           written = Some ([(''400'', DMConversationEntry ''400'' ''older'')], ''500''),
           transcript = Some (''[DMConversationEntry] joined'' @ [CHR 0x0A]
                              @ ''[DMConversationEntry] older'' @ [CHR 0x0A]
                              @ ''[LatestTweetID] 400'' @ [CHR 0x0A]),
           requested = [None, Some ''min''], console = [], found_after = False\<rparr>"
    by (simp only: crawl_after_prefix [OF marker_file_500 loop_400] crawl_page_end_of_thread)
      (simp add: finish_def write_400)
  then show ?thesis by (simp add: marker_file_def)
qed

subsection \<open>The order of processing\<close>

lemma loop_five:
  "crawl_loop notice_parser ''100'' [Response (page_of five_notices) None]
     (initial_state False)
   = Finished \<lparr>tweets = [(''99'', DMConversationEntry ''99'' ''a''),
                            (''105'', DMConversationEntry ''105'' ''e''),
                            (''103'', DMConversationEntry ''103'' ''d''),
                            (''101'', DMConversationEntry ''101'' ''c'')],
       payload = Some ''min'', max_id_found = True, requests = [None], printed = []\<rparr>"
  by (simp add: run_defs eval_defs five_notices_def)

lemma write_five:
  "write_conversation posix_utc [(''99'', DMConversationEntry ''99'' ''a''),
                            (''105'', DMConversationEntry ''105'' ''e''),
                            (''103'', DMConversationEntry ''103'' ''d''),
                            (''101'', DMConversationEntry ''101'' ''c'')]
     (marker_file ''100'') ''100''
   = Inr (Some (''[DMConversationEntry] joined'' @ [CHR 0x0A]
                              @ ''[DMConversationEntry] c'' @ [CHR 0x0A]
                              @ ''[DMConversationEntry] d'' @ [CHR 0x0A]
                              @ ''[DMConversationEntry] e'' @ [CHR 0x0A]
                              @ ''[DMConversationEntry] a'' @ [CHR 0x0A]
                              @ ''[LatestTweetID] 99'' @ [CHR 0x0A]))"
  by (simp add: write_conversation_def marker_file_def latest_marker_def posix_utc_def)

text \<open>
  C1, at the input of the claim: marker 100 and a page with the ids 105, 103, 101, 100
  and 99. The ids are strings and \<open>sorted\<close> compares them as strings, so 99 comes
  first: the entries 99, 105, 103 and 101 are processed, they are written in the order
  101, 103, 105, 99, and the marker written is 99.
\<close>

theorem incremental_stop_example:
  "crawl posix_utc notice_parser [Response (page_of five_notices) None] False
     (marker_file ''100'')
   = Some \<lparr>raised = None,
           written = Some ([(''99'', DMConversationEntry ''99'' ''a''),
                            (''105'', DMConversationEntry ''105'' ''e''),
                            (''103'', DMConversationEntry ''103'' ''d''),
                            (''101'', DMConversationEntry ''101'' ''c'')], ''100''),
           transcript = Some (''[DMConversationEntry] joined'' @ [CHR 0x0A]
                              @ ''[DMConversationEntry] c'' @ [CHR 0x0A]
                              @ ''[DMConversationEntry] d'' @ [CHR 0x0A]
                              @ ''[DMConversationEntry] e'' @ [CHR 0x0A]
                              @ ''[DMConversationEntry] a'' @ [CHR 0x0A]
                              @ ''[LatestTweetID] 99'' @ [CHR 0x0A]),
           requested = [None], console = [], found_after = False\<rparr>"
  by (simp only: crawl_def marker_file_100 loop_five sum.case loop_result.case)
    (simp add: finish_def write_five)

lemma loop_105_99:
  "crawl_loop notice_parser ''0''
     [Response (page_of [(''105'', ''newer''), (''99'', ''older'')]) None] (initial_state False)
   = Running \<lparr>tweets = [(''99'', DMConversationEntry ''99'' ''older''),
                        (''105'', DMConversationEntry ''105'' ''newer'')],
       payload = Some ''min'', max_id_found = False, requests = [None], printed = []\<rparr>"
  by (simp add: run_defs eval_defs)

lemma write_105_99:
  "write_conversation posix_utc [(''99'', DMConversationEntry ''99'' ''older''),
                        (''105'', DMConversationEntry ''105'' ''newer'')] None ''0''
   = Inr (Some (''[DMConversationEntry] newer'' @ [CHR 0x0A]
                              @ ''[DMConversationEntry] older'' @ [CHR 0x0A]
                              @ ''[LatestTweetID] 99'' @ [CHR 0x0A]))"
  by (simp add: write_conversation_def latest_marker_def posix_utc_def)

text \<open>
  C3, at a page with the ids 105 and 99 and no previous transcript: the entry 105 is
  written before the entry 99, and the marker written is 99.
\<close>

theorem ascending_order_example:
  "crawl posix_utc notice_parser
     ([Response (page_of [(''105'', ''newer''), (''99'', ''older'')]) None]
      @ Response end_of_thread None # []) False None
   = Some \<lparr>raised = None,
           written = Some ([(''99'', DMConversationEntry ''99'' ''older''),
                            (''105'', DMConversationEntry ''105'' ''newer'')], ''0''),
           transcript = Some (''[DMConversationEntry] newer'' @ [CHR 0x0A]
                              @ ''[DMConversationEntry] older'' @ [CHR 0x0A]
                              @ ''[LatestTweetID] 99'' @ [CHR 0x0A]),
           requested = [None, Some ''min''], console = [], found_after = False\<rparr>"
proof -
  have m: "get_latest_tweet_id None = Inr ''0''"
    by (simp add: get_latest_tweet_id_def)
  show ?thesis
    by (simp only: crawl_after_prefix [OF m loop_105_99] crawl_page_end_of_thread)
      (simp add: finish_def write_105_99)
qed

subsection \<open>Fragments that do not parse\<close>

lemma concat_utf8_chars: "concat (utf8_chars s) = s"
  by (induction s rule: utf8_chars.induct) simp_all

lemma utf8_chars_nonempty: "t \<in> set (utf8_chars s) \<Longrightarrow> t \<noteq> []"
  by (induction s rule: utf8_chars.induct) auto

lemma utf8_chars_append:
  "ys = [] \<or> \<not> is_cont (hd ys) \<Longrightarrow> utf8_chars (xs @ ys) = utf8_chars xs @ utf8_chars ys"
proof (induction xs rule: utf8_chars.induct)
  case 1
  show ?case by simp
next
  case (2 c cs)
  have tw: "takeWhile is_cont ys = []" and dw: "dropWhile is_cont ys = ys"
    using "2.prems" by (cases ys; simp)+
  show ?case
  proof (cases "\<forall>x \<in> set cs. is_cont x")
    case True
    have a: "takeWhile is_cont cs = cs"
      using True by (simp add: takeWhile_eq_all_conv)
    have b: "dropWhile is_cont cs = []"
      using True by simp
    have c: "takeWhile is_cont (cs @ ys) = cs"
      using True by (simp add: takeWhile_append2 tw)
    have d: "dropWhile is_cont (cs @ ys) = ys"
      using True by (simp add: dropWhile_append2 dw)
    show ?thesis
      by (simp only: append_Cons utf8_chars.simps a b c d append_Nil)
  next
    case False
    then obtain x where x: "x \<in> set cs" "\<not> is_cont x" by blast
    have "takeWhile is_cont (cs @ ys) = takeWhile is_cont cs"
      "dropWhile is_cont (cs @ ys) = dropWhile is_cont cs @ ys"
      using x by (simp_all add: takeWhile_append1 dropWhile_append1)
    then show ?thesis using "2.IH" [OF "2.prems"] by simp
  qed
qed

lemma utf8_chars_ascii_Cons:
  "\<not> is_cont (hd (ys @ [c])) \<Longrightarrow> utf8_chars (x # ys @ [c]) = [x] # utf8_chars (ys @ [c])"
  by (cases ys) simp_all

lemma dropWhile_append_stop:
  "\<not> P x \<Longrightarrow> dropWhile P (xs @ x # ys) = dropWhile P xs @ x # ys"
  by (induction xs) simp_all

lemma strip_parse_error:
  "py_strip (''[ParseError] Parsing of tweet '' @ [CHR 0x27] @ tweet_id @ [CHR 0x27]
        @ '' failed. Raw HTML: '' @ raw)
   = parse_error_head tweet_id @ py_rstrip ('' '' @ raw)"
proof -
  let ?mid = "''ParseError] Parsing of tweet '' @ [CHR 0x27] @ tweet_id @ [CHR 0x27]
     @ '' failed. Raw HTML''"
  let ?tail = "utf8_chars ('' '' @ raw)"
  have nc: "\<not> is_cont (CHR '':'')" "\<not> is_cont (CHR ''P'')" "\<not> is_cont (CHR '' '')"
    by (simp_all add: is_cont_def)
  have s: "''[ParseError] Parsing of tweet '' @ [CHR 0x27] @ tweet_id @ [CHR 0x27]
        @ '' failed. Raw HTML: '' @ raw = CHR ''['' # ?mid @ ('':'' @ '' '' @ raw)"
    by simp
  have t1: "utf8_chars (CHR ''['' # ?mid @ ('':'' @ '' '' @ raw))
        = ''['' # utf8_chars (?mid @ ('':'' @ '' '' @ raw))"
    using nc by simp
  have t2: "utf8_chars (?mid @ ('':'' @ '' '' @ raw))
        = utf8_chars ?mid @ utf8_chars ('':'' @ '' '' @ raw)"
    by (rule utf8_chars_append) (simp add: nc)
  have t3: "utf8_chars ('':'' @ '' '' @ raw) = '':'' # ?tail"
    using nc by simp
  have toks: "utf8_chars (CHR ''['' # ?mid @ ('':'' @ '' '' @ raw))
        = ''['' # utf8_chars ?mid @ '':'' # ?tail"
    by (simp only: t1 t2 t3)
  have ns: "\<not> py_isspace ''[''" "\<not> py_isspace '':''"
    by (simp_all add: py_isspace_def)
  have h: "parse_error_head tweet_id = concat (''['' # utf8_chars ?mid @ ['':''])"
    by (simp add: parse_error_head_def concat_utf8_chars)
  have "py_strip (CHR ''['' # ?mid @ ('':'' @ '' '' @ raw))
        = concat (rev (dropWhile py_isspace (rev ?tail @ '':'' # rev (''['' # utf8_chars ?mid))))"
    unfolding py_strip_def toks using ns by simp
  also have "\<dots> = concat (''['' # utf8_chars ?mid @ ['':'']) @ concat (rev (dropWhile py_isspace (rev ?tail)))"
    by (simp only: dropWhile_append_stop [where P = py_isspace, OF ns(2)]) simp
  finally show ?thesis
    by (simp only: s h py_rstrip_def)
qed

lemma rev_dropWhile_takeWhile:
  "rev (dropWhile P (rev xs)) @ rev (takeWhile P (rev xs)) = xs"
proof -
  have "rev (dropWhile P (rev xs)) @ rev (takeWhile P (rev xs))
        = rev (takeWhile P (rev xs) @ dropWhile P (rev xs))"
    by (simp only: rev_append)
  also have "\<dots> = xs" by simp
  finally show ?thesis .
qed

lemma py_rstrip_prefix: "prefix (py_rstrip s) s"
proof -
  let ?r = "rev (utf8_chars s)"
  have "concat (rev (dropWhile py_isspace ?r) @ rev (takeWhile py_isspace ?r)) = s"
    by (simp only: rev_dropWhile_takeWhile concat_utf8_chars)
  then have "s = py_rstrip s @ concat (rev (takeWhile py_isspace ?r))"
    by (simp only: concat_append py_rstrip_def)
  then show ?thesis by (rule prefixI)
qed

lemma concat_Nil_nonempty:
  "(\<And>t. t \<in> set xs \<Longrightarrow> t \<noteq> []) \<Longrightarrow> concat xs = [] \<longleftrightarrow> xs = []"
  by (cases xs) auto

lemma py_rstrip_Nil_iff:
  "py_rstrip s = [] \<longleftrightarrow> (\<forall>t \<in> set (utf8_chars s). py_isspace t)"
proof -
  let ?d = "dropWhile py_isspace (rev (utf8_chars s))"
  have ne: "t \<noteq> []" if "t \<in> set (rev ?d)" for t
  proof -
    from that have "t \<in> set ?d" by (simp only: set_rev)
    then have "t \<in> set (rev (utf8_chars s))" by (rule set_dropWhileD)
    then have "t \<in> set (utf8_chars s)" by (simp only: set_rev)
    then show ?thesis by (rule utf8_chars_nonempty)
  qed
  have "py_rstrip s = [] \<longleftrightarrow> rev ?d = []"
    unfolding py_rstrip_def by (rule concat_Nil_nonempty) (rule ne)
  also have "\<dots> \<longleftrightarrow> ?d = []"
    by (simp only: rev_is_Nil_conv)
  also have "\<dots> \<longleftrightarrow> (\<forall>t \<in> set (rev (utf8_chars s)). py_isspace t)"
    by (simp only: dropWhile_eq_Nil_conv)
  also have "\<dots> \<longleftrightarrow> (\<forall>t \<in> set (utf8_chars s). py_isspace t)"
    by (simp only: set_rev)
  finally show ?thesis .
qed

lemma py_rstrip_space:
  assumes "raw = [] \<or> \<not> is_cont (hd raw)"
  shows "py_rstrip ('' '' @ raw) = (if py_rstrip raw = [] then [] else '' '' @ py_rstrip raw)"
proof -
  have sp: "py_isspace '' ''" by (simp add: py_isspace_def)
  have "utf8_chars ('' '' @ raw) = utf8_chars '' '' @ utf8_chars raw"
    by (rule utf8_chars_append [OF assms])
  then have toks: "rev (utf8_chars ('' '' @ raw)) = rev (utf8_chars raw) @ ['' '']"
    by simp
  have r: "py_rstrip ('' '' @ raw)
           = concat (rev (dropWhile py_isspace (rev (utf8_chars raw) @ ['' ''])))"
    by (simp only: py_rstrip_def toks)
  show ?thesis
  proof (cases "\<forall>t \<in> set (utf8_chars raw). py_isspace t")
    case True
    then have "dropWhile py_isspace (rev (utf8_chars raw) @ ['' '']) = []"
      using sp by (simp add: dropWhile_append2)
    moreover have "py_rstrip raw = []"
      using True by (simp only: py_rstrip_Nil_iff)
    ultimately show ?thesis
      by (simp only: r) simp
  next
    case False
    then obtain t where "t \<in> set (rev (utf8_chars raw))" "\<not> py_isspace t" by auto
    then have "dropWhile py_isspace (rev (utf8_chars raw) @ ['' ''])
               = dropWhile py_isspace (rev (utf8_chars raw)) @ ['' '']"
      by (rule dropWhile_append1)
    moreover have "py_rstrip raw \<noteq> []"
      using False by (simp only: py_rstrip_Nil_iff) simp
    ultimately show ?thesis
      by (simp only: r) (simp add: py_rstrip_def)
  qed
qed

lemma process_loop_keeps:
  "k \<notin> fst ` set page \<Longrightarrow>
   map_of (snd (process_loop parse max_id page st)) k = map_of (snd st) k"
  by (induction page arbitrary: st) (auto simp: update_conv' split: sum.splits)

lemma process_loop_distinct:
  "distinct (map fst (snd st)) \<Longrightarrow>
   distinct (map fst (snd (process_loop parse max_id page st)))"
  by (induction page arbitrary: st) (auto simp: distinct_update split: sum.splits)

lemmas html_defs =
  selector_parser_def notice_html_def unmatched_html_def no_avatar_html_def
  unmatched_older_def unmatched_newer_def

text \<open>
  When the parsing of a fragment raises anything but \<open>KeyboardInterrupt\<close>, the loop goes
  on with the rest of the batch exactly as it would have, with one entry stored for that
  fragment: a \<open>DMConversationEntry\<close> under its id whose text is the tag \<open>[ParseError]\<close>,
  the id and the raw fragment without its trailing whitespace (the constructor strips
  the text). The raw value is a string, so its encoding does not begin with a
  continuation byte.
\<close>

lemma parse_failure_contained:
  assumes "fst tweet \<noteq> max_id"
    and "parse_fragment (fst tweet) (parse (fst tweet) (snd tweet)) = Inl e"
    and "e \<noteq> KeyboardInterrupt"
    and "snd tweet = [] \<or> \<not> is_cont (hd (snd tweet))"
    and "fst tweet \<notin> fst ` set rest"
    and "distinct (map fst (snd st))"
  shows "process_loop parse max_id (tweet # rest) st
         = process_loop parse max_id rest
             (fst st, AList.update (fst tweet) (parse_error_entry (fst tweet) (snd tweet)) (snd st))
       \<and> map_of (snd (process_loop parse max_id (tweet # rest) st)) (fst tweet)
         = Some (parse_error_entry (fst tweet) (snd tweet))
       \<and> distinct (map fst (snd (process_loop parse max_id (tweet # rest) st)))
       \<and> parse_error_entry (fst tweet) (snd tweet)
         = DMConversationEntry (fst tweet)
             (''[ParseError] Parsing of tweet '' @ [CHR 0x27] @ fst tweet @ [CHR 0x27]
              @ '' failed. Raw HTML:''
              @ (if py_rstrip (snd tweet) = [] then [] else '' '' @ py_rstrip (snd tweet)))
       \<and> prefix (py_rstrip (snd tweet)) (snd tweet)"
proof -
  let ?entry = "parse_error_entry (fst tweet) (snd tweet)"
  have step: "process_loop parse max_id (tweet # rest) st
         = process_loop parse max_id rest (fst st, AList.update (fst tweet) ?entry (snd st))"
    using assms(1-3) by simp
  have "map_of (snd (process_loop parse max_id rest
            (fst st, AList.update (fst tweet) ?entry (snd st)))) (fst tweet)
        = map_of (AList.update (fst tweet) ?entry (snd st)) (fst tweet)"
    using process_loop_keeps [OF assms(5)] by simp
  then have look: "map_of (snd (process_loop parse max_id (tweet # rest) st)) (fst tweet)
        = Some ?entry"
    by (simp only: step) (simp add: update_conv')
  have dist: "distinct (map fst (snd (process_loop parse max_id (tweet # rest) st)))"
    by (rule process_loop_distinct [OF assms(6)])
  have entry: "?entry
         = DMConversationEntry (fst tweet)
             (''[ParseError] Parsing of tweet '' @ [CHR 0x27] @ fst tweet @ [CHR 0x27]
              @ '' failed. Raw HTML:''
              @ (if py_rstrip (snd tweet) = [] then [] else '' '' @ py_rstrip (snd tweet)))"
    unfolding parse_error_entry_def new_DMConversationEntry_def strip_parse_error
      py_rstrip_space [OF assms(4)] parse_error_head_def
    by simp
  show ?thesis
    using step look dist entry py_rstrip_prefix by blast
qed

lemma rstrip_no_avatar:
  "py_rstrip (''<div class=DirectMessage-container></div>'' @ [CHR 0x0A])
   = ''<div class=DirectMessage-container></div>''"
  by (simp add: py_rstrip_def is_cont_def py_isspace_def)

text \<open>
  The container without an avatar, before a notice: its entry holds the fragment without
  the line feed, and the notice is processed next.
\<close>

lemma parse_failure_example:
  "map_of (snd (process_loop selector_parser ''0''
                  [(''105'', no_avatar_html), (''103'', notice_html)] (False, []))) ''105''
   = Some (DMConversationEntry ''105''
            (''[ParseError] Parsing of tweet '' @ [CHR 0x27] @ ''105'' @ [CHR 0x27]
             @ '' failed. Raw HTML: <div class=DirectMessage-container></div>''))
   \<and> process_loop selector_parser ''0''
        [(''105'', no_avatar_html), (''103'', notice_html)] (False, [])
     = process_loop selector_parser ''0'' [(''103'', notice_html)]
        (False, [(''105'', parse_error_entry ''105'' no_avatar_html)])"
proof -
  let ?t = "(''105'', no_avatar_html)"
  have a: "fst ?t \<noteq> ''0''" by simp
  have b: "parse_fragment (fst ?t) (selector_parser (fst ?t) (snd ?t)) = Inl IndexError"
    by (simp add: html_defs)
  have c: "IndexError \<noteq> KeyboardInterrupt" by simp
  have d: "snd ?t = [] \<or> \<not> is_cont (hd (snd ?t))"
    by (simp add: is_cont_def no_avatar_html_def)
  have e: "fst ?t \<notin> fst ` set [(''103'', notice_html)]" by simp
  have f: "distinct (map fst (snd (False, [] :: message dict)))" by simp
  note th = parse_failure_contained [where parse = selector_parser and tweet = ?t,
      OF a b c d e f]
  have m: "map_of (snd (process_loop selector_parser ''0'' (?t # [(''103'', notice_html)])
                          (False, []))) (fst ?t)
           = Some (parse_error_entry (fst ?t) (snd ?t))"
    using th by blast
  have en: "parse_error_entry (fst ?t) (snd ?t)
            = DMConversationEntry (fst ?t)
               (''[ParseError] Parsing of tweet '' @ [CHR 0x27] @ fst ?t @ [CHR 0x27]
                @ '' failed. Raw HTML:''
                @ (if py_rstrip (snd ?t) = [] then [] else '' '' @ py_rstrip (snd ?t)))"
    using th by blast
  have s: "process_loop selector_parser ''0'' (?t # [(''103'', notice_html)]) (False, [])
     = process_loop selector_parser ''0'' [(''103'', notice_html)]
        (fst (False, [] :: message dict),
         AList.update (fst ?t) (parse_error_entry (fst ?t) (snd ?t))
           (snd (False, [] :: message dict)))"
    using th by blast
  have "map_of (snd (process_loop selector_parser ''0'' (?t # [(''103'', notice_html)])
                       (False, []))) ''105''
        = Some (DMConversationEntry ''105''
            (''[ParseError] Parsing of tweet '' @ [CHR 0x27] @ ''105'' @ [CHR 0x27]
             @ '' failed. Raw HTML: <div class=DirectMessage-container></div>''))"
    using m en
    by (simp add: no_avatar_html_def rstrip_no_avatar [simplified] del: process_loop.simps)
  moreover have "process_loop selector_parser ''0'' (?t # [(''103'', notice_html)]) (False, [])
     = process_loop selector_parser ''0'' [(''103'', notice_html)]
        (False, [(''105'', parse_error_entry ''105'' no_avatar_html)])"
    using s by (simp del: process_loop.simps)
  ultimately show ?thesis by (simp del: process_loop.simps)
qed

text \<open>The raw fragment, with its line feed, is not a part of the text of the entry.\<close>

lemma raw_fragment_stripped:
  "snd (process_tweets selector_parser [(''105'', no_avatar_html)] ''0'' False)
   = [(''105'', DMConversationEntry ''105''
         (''[ParseError] Parsing of tweet '' @ [CHR 0x27] @ ''105'' @ [CHR 0x27]
          @ '' failed. Raw HTML: <div class=DirectMessage-container></div>''))]
   \<and> \<not> sublist no_avatar_html
         (''[ParseError] Parsing of tweet '' @ [CHR 0x27] @ ''105'' @ [CHR 0x27]
          @ '' failed. Raw HTML: <div class=DirectMessage-container></div>'')"
proof -
  let ?text = "''[ParseError] Parsing of tweet '' @ [CHR 0x27] @ ''105'' @ [CHR 0x27]
          @ '' failed. Raw HTML: <div class=DirectMessage-container></div>''"
  have "snd (process_tweets selector_parser [(''105'', no_avatar_html)] ''0'' False)
        = [(''105'', DMConversationEntry ''105'' ?text)]"
    by (simp add: html_defs run_defs eval_defs)
  moreover have "\<not> sublist no_avatar_html ?text"
  proof
    assume "sublist no_avatar_html ?text"
    then have "set no_avatar_html \<subseteq> set ?text" by (rule set_mono_sublist)
    then show False by (simp add: no_avatar_html_def)
  qed
  ultimately show ?thesis by blast
qed

lemma no_file: "get_latest_tweet_id None = Inr ''0''"
  by (simp add: get_latest_tweet_id_def)

lemma loop_unmatched_older:
  "crawl_loop selector_parser ''0'' [Response (page_of unmatched_older) None]
     (initial_state False)
   = Running \<lparr>tweets = [(''105'', DMConversationEntry ''105'' ''joined''),
                        (''103'', Empty_Str)],
              payload = Some ''min'', max_id_found = False, requests = [None],
              printed = []\<rparr>"
  by (simp add: html_defs run_defs eval_defs)

lemma loop_unmatched_newer:
  "crawl_loop selector_parser ''0'' [Response (page_of unmatched_newer) None]
     (initial_state False)
   = Running \<lparr>tweets = [(''105'', Empty_Str),
                        (''103'', DMConversationEntry ''103'' ''joined'')],
              payload = Some ''min'', max_id_found = False, requests = [None],
              printed = []\<rparr>"
  by (simp add: html_defs run_defs eval_defs)

lemma write_unmatched_older:
  "write_conversation posix_utc
     [(''105'', DMConversationEntry ''105'' ''joined''), (''103'', Empty_Str)] None ''0''
   = Inr (Some (''[DMConversationEntry] joined'' @ [CHR 0x0A]
                @ ''[LatestTweetID] 105'' @ [CHR 0x0A]))"
  by (simp add: write_conversation_def latest_marker_def posix_utc_def)

lemma write_unmatched_newer:
  "write_conversation posix_utc
     [(''105'', Empty_Str), (''103'', DMConversationEntry ''103'' ''joined'')] None ''0''
   = Inl AttributeError"
  by (simp add: write_conversation_def latest_marker_def posix_utc_def)

text \<open>
  C7. A fragment that is neither a message nor a notice raises nothing: no element
  matches either selector, \<open>message\<close> keeps its initial value, the empty string, and
  \<open>if message is not None\<close> lets it through. For a page with the notice 105 and the
  paragraph 103, the empty string is stored under 103 and \<open>write_conversation\<close> writes
  nothing for it: the transcript holds the line of 105 and the marker, and no entry for
  103. When the paragraph is the newest entry of the run, \<open>write_conversation\<close> raises
  \<open>AttributeError\<close> at \<open>tweet[1].tweet_id\<close> and nothing is written.
\<close>

theorem unmatched_fragment_dropped:
  "process_tweets selector_parser unmatched_older ''0'' False
   = (False, [(''105'', DMConversationEntry ''105'' ''joined''), (''103'', Empty_Str)])
   \<and> crawl posix_utc selector_parser
       [Response (page_of unmatched_older) None, Response end_of_thread None] False None
     = Some \<lparr>raised = None,
             written = Some ([(''105'', DMConversationEntry ''105'' ''joined''),
                              (''103'', Empty_Str)], ''0''),
             transcript = Some (''[DMConversationEntry] joined'' @ [CHR 0x0A]
                                @ ''[LatestTweetID] 105'' @ [CHR 0x0A]),
             requested = [None, Some ''min''], console = [], found_after = False\<rparr>
   \<and> crawl posix_utc selector_parser
       [Response (page_of unmatched_newer) None, Response end_of_thread None] False None
     = Some \<lparr>raised = Some AttributeError,
             written = Some ([(''105'', Empty_Str),
                              (''103'', DMConversationEntry ''103'' ''joined'')], ''0''),
             transcript = None,
             requested = [None, Some ''min''], console = [], found_after = False\<rparr>"
proof -
  have 1: "process_tweets selector_parser unmatched_older ''0'' False
     = (False, [(''105'', DMConversationEntry ''105'' ''joined''), (''103'', Empty_Str)])"
    by (simp add: html_defs run_defs eval_defs)
  have 2: "crawl posix_utc selector_parser
       [Response (page_of unmatched_older) None, Response end_of_thread None] False None
     = Some \<lparr>raised = None,
             written = Some ([(''105'', DMConversationEntry ''105'' ''joined''),
                              (''103'', Empty_Str)], ''0''),
             transcript = Some (''[DMConversationEntry] joined'' @ [CHR 0x0A]
                                @ ''[LatestTweetID] 105'' @ [CHR 0x0A]),
             requested = [None, Some ''min''], console = [], found_after = False\<rparr>"
    using crawl_after_prefix [OF no_file loop_unmatched_older, of posix_utc
        "Response end_of_thread None" "[]"]
    by (simp add: crawl_page_end_of_thread finish_def write_unmatched_older)
  have 3: "crawl posix_utc selector_parser
       [Response (page_of unmatched_newer) None, Response end_of_thread None] False None
     = Some \<lparr>raised = Some AttributeError,
             written = Some ([(''105'', Empty_Str),
                              (''103'', DMConversationEntry ''103'' ''joined'')], ''0''),
             transcript = None,
             requested = [None, Some ''min''], console = [], found_after = False\<rparr>"
    using crawl_after_prefix [OF no_file loop_unmatched_newer, of posix_utc
        "Response end_of_thread None" "[]"]
    by (simp add: crawl_page_end_of_thread finish_def write_unmatched_newer)
  show ?thesis using 1 2 3 by (simp only: simp_thms)
qed


subsection \<open>The marker line\<close>

lemma readlines_Nil_iff: "readlines s = [] \<longleftrightarrow> s = []"
  by (cases s) (simp_all split: list.splits)

lemma readlines_nonempty: "l \<in> set (readlines s) \<Longrightarrow> l \<noteq> []"
  by (induction s arbitrary: l) (auto split: if_splits list.splits)

lemma readlines_append:
  "xs = [] \<or> last xs = CHR 0x0A \<Longrightarrow> readlines (xs @ ys) = readlines xs @ readlines ys"
proof (induction xs)
  case Nil
  show ?case by simp
next
  case (Cons c cs)
  show ?case
  proof (cases "cs = []")
    case True
    with Cons.prems show ?thesis by simp
  next
    case False
    with Cons.prems have "last cs = CHR 0x0A" by simp
    then have ih: "readlines (cs @ ys) = readlines cs @ readlines ys"
      using Cons.IH by simp
    from False obtain l ls where r: "readlines cs = l # ls"
      by (cases "readlines cs") (simp_all add: readlines_Nil_iff)
    show ?thesis by (simp add: ih r)
  qed
qed

lemma readlines_line:
  "CHR 0x0A \<notin> set l \<Longrightarrow> readlines (l @ [CHR 0x0A]) = [l @ [CHR 0x0A]]"
  by (induction l) auto

lemma kept_ends:
  "concat (butlast (readlines s)) = [] \<or> last (concat (butlast (readlines s))) = CHR 0x0A"
proof (induction s)
  case Nil
  show ?case by simp
next
  case (Cons c cs)
  show ?case
  proof (cases "readlines cs")
    case Nil
    then show ?thesis by simp
  next
    case r: (Cons l ls)
    then have "l \<in> set (readlines cs)" by simp
    then have l: "l \<noteq> []" by (rule readlines_nonempty)
    from Cons.IH have ih: "concat (butlast (l # ls)) = []
        \<or> last (concat (butlast (l # ls))) = CHR 0x0A"
      unfolding r .
    show ?thesis
    proof (cases "c = CHR 0x0A")
      case True
      then show ?thesis using ih l by (cases "ls = []") (auto simp add: r)
    next
      case False
      show ?thesis
      proof (cases "ls = []")
        case True
        then show ?thesis using False by (simp add: r)
      next
        case nonempty: False
        with ih l have "last (l @ concat (butlast ls)) = CHR 0x0A" by simp
        then show ?thesis using False nonempty l by (simp add: r)
      qed
    qed
  qed
qed

lemma render_message_ends:
  "valid_linesep pf \<Longrightarrow> render_message pf m = Inr text \<Longrightarrow>
   text = [] \<or> last text = CHR 0x0A"
  by (cases m) (auto simp: valid_linesep_def split: sum.splits)

lemma render_items_ends:
  "valid_linesep pf \<Longrightarrow> render_items pf its = Inr body \<Longrightarrow>
   body = [] \<or> last body = CHR 0x0A"
proof (induction its arbitrary: body)
  case Nil
  then show ?case by simp
next
  case (Cons tweet rest)
  from Cons.prems(2) obtain line more_lines
    where l: "render_message pf (snd tweet) = Inr line"
      and r: "render_items pf rest = Inr more_lines"
      and b: "body = line @ more_lines"
    by (auto split: sum.splits)
  from render_message_ends [OF Cons.prems(1) l] Cons.IH [OF Cons.prems(1) r]
  show ?case unfolding b by (cases "more_lines = []") auto
qed

lemma digit_ascii: "is_digit c \<Longrightarrow> (of_char c :: nat) < 128"
  by (simp add: is_digit_def less_eq_char_def)

lemma not_digit: "\<not> is_digit (CHR 0x0A)" "\<not> is_digit (CHR 0x0D)"
  by (simp_all add: is_digit_def)

lemma digit_not_newline: "is_digit c \<Longrightarrow> c \<noteq> CHR 0x0A"
  using not_digit(1) by blast

lemma utf8_width_ascii: "a < 128 \<Longrightarrow> utf8_width (a # bs) = 1"
  by (cases "a # bs" rule: utf8_width.cases) auto

lemma utf8_valid_ascii: "\<forall>c \<in> set s. (of_char c :: nat) < 128 \<Longrightarrow> utf8_valid s"
proof (induction s)
  case Nil
  show ?case by (simp add: utf8_valid.simps)
next
  case (Cons c cs)
  then have "utf8_width (map of_char (c # cs)) = 1"
    by (simp add: utf8_width_ascii)
  then have "utf8_valid (c # cs) = utf8_valid cs"
    by (subst utf8_valid.simps) simp
  with Cons show ?case by simp
qed

lemma marker_line:
  assumes "valid_linesep pf" and "latest \<noteq> []" and "\<forall>c \<in> set latest. is_digit c"
  shows "readlines (latest_marker pf latest) = [latest_marker pf latest]"
    and "match_latest (latest_marker pf latest) = Some latest"
    and "utf8_valid (latest_marker pf latest)"
proof -
  from assms(1) obtain sep where sep: "linesep pf = sep @ [CHR 0x0A]"
    "sep = [] \<or> sep = [CHR 0x0D]"
    by (auto simp: valid_linesep_def)
  have "CHR 0x0A \<notin> set latest"
    using assms(3) digit_not_newline by blast
  moreover have "CHR 0x0A \<notin> set sep"
    using sep(2) by auto
  ultimately have nl: "CHR 0x0A \<notin> set (''[LatestTweetID] '' @ latest @ sep)"
    by simp
  have "readlines ((''[LatestTweetID] '' @ latest @ sep) @ [CHR 0x0A])
        = [(''[LatestTweetID] '' @ latest @ sep) @ [CHR 0x0A]]"
    by (rule readlines_line [OF nl])
  then show "readlines (latest_marker pf latest) = [latest_marker pf latest]"
    by (simp add: latest_marker_def sep(1))
  have "takeWhile is_digit (linesep pf) = []"
    using sep not_digit by auto
  then have "takeWhile is_digit (latest @ linesep pf) = latest"
    using assms(3) by (simp add: takeWhile_append2)
  then show "match_latest (latest_marker pf latest) = Some latest"
    using assms(2) by (simp add: match_latest_def latest_marker_def)
  have "\<forall>c \<in> set latest. (of_char c :: nat) < 128"
    using assms(3) digit_ascii by blast
  moreover have "\<forall>c \<in> set (linesep pf). (of_char c :: nat) < 128"
    using sep by auto
  ultimately have "\<forall>c \<in> set (latest_marker pf latest). (of_char c :: nat) < 128"
    by (simp add: latest_marker_def ball_Un)
  then show "utf8_valid (latest_marker pf latest)"
    by (rule utf8_valid_ascii)
qed

lemma get_latest_last:
  assumes "readlines content = ls @ [m]" and "utf8_valid m" and "match_latest m = Some x"
  shows "get_latest_tweet_id (Some content) = Inr x"
proof -
  obtain l ls' where c: "ls @ [m] = l # ls'" by (cases ls) auto
  then have "last (l # ls') = m" by (metis last_snoc)
  then show ?thesis
    using assms by (simp add: get_latest_tweet_id_def c)
qed

lemma write_conversation_result:
  assumes "write_conversation pf ts file max_id = Inr file'" and "ts \<noteq> []"
  shows "\<exists>kept body latest.
           render_items pf (rev ts) = Inr body
         \<and> tweet_id_of (snd (hd ts)) = Inr latest
         \<and> ((max_id = ''0'' \<and> kept = [])
            \<or> (\<exists>content. max_id \<noteq> ''0'' \<and> file = Some content
                  \<and> kept = concat (butlast (readlines content))))
         \<and> file' = Some (kept @ body @ latest_marker pf latest)"
proof -
  from assms(2) have l: "last (rev ts) = hd ts" by (simp add: last_rev)
  from assms obtain body where b: "render_items pf (rev ts) = Inr body"
    by (cases "render_items pf (rev ts)") (simp_all add: write_conversation_def)
  from assms b l obtain latest where t: "tweet_id_of (snd (hd ts)) = Inr latest"
    by (cases "tweet_id_of (snd (hd ts))") (simp_all add: write_conversation_def)
  show ?thesis
  proof (cases "max_id = ''0''")
    case True
    with assms b l t have "file' = Some ([] @ body @ latest_marker pf latest)"
      by (simp add: write_conversation_def)
    with b t True show ?thesis by blast
  next
    case False
    with assms b l t obtain content where "file = Some content"
      "file' = Some (concat (butlast (readlines content)) @ body @ latest_marker pf latest)"
      by (cases "file") (simp_all add: write_conversation_def)
    with b t False show ?thesis by blast
  qed
qed

text \<open>
  C2 (as amended). After a write-back of at least one entry that succeeds, the file is
  the part kept of the old file, then the lines of the entries, then one marker line
  with the id of the entry accumulated first. The part kept is empty when no previous
  marker was read (\<open>max_id\<close> is \<open>'0'\<close>: the file is created afresh) and is the old
  content without its last line otherwise. When that id is a non-empty string of
  digits, the marker line is the last line of the file, \<open>_get_latest_tweet_id\<close> reads
  the id back from it, and the lines of the file that match the marker pattern are
  those of the part kept, those of the entries, and that last line.
\<close>

theorem marker_invariant:
  assumes "write_conversation pf ts file max_id = Inr file'"
    and "ts \<noteq> []"
    and "valid_linesep pf"
  shows "\<exists>kept body latest.
           render_items pf (rev ts) = Inr body
         \<and> tweet_id_of (snd (hd ts)) = Inr latest
         \<and> ((max_id = ''0'' \<and> kept = [])
            \<or> (\<exists>content. max_id \<noteq> ''0'' \<and> file = Some content
                  \<and> kept = concat (butlast (readlines content))))
         \<and> file' = Some (kept @ body @ latest_marker pf latest)
         \<and> (latest \<noteq> [] \<and> (\<forall>c \<in> set latest. is_digit c) \<longrightarrow>
              readlines (kept @ body @ latest_marker pf latest)
              = readlines kept @ readlines body @ [latest_marker pf latest]
            \<and> get_latest_tweet_id file' = Inr latest
            \<and> marker_lines (kept @ body @ latest_marker pf latest)
              = marker_lines kept @ marker_lines body @ [latest_marker pf latest])"
proof -
  from write_conversation_result [OF assms(1,2)] obtain kept body latest
    where b: "render_items pf (rev ts) = Inr body"
      and t: "tweet_id_of (snd (hd ts)) = Inr latest"
      and k: "(max_id = ''0'' \<and> kept = [])
            \<or> (\<exists>content. max_id \<noteq> ''0'' \<and> file = Some content
                  \<and> kept = concat (butlast (readlines content)))"
      and f: "file' = Some (kept @ body @ latest_marker pf latest)"
    by blast
  let ?m = "latest_marker pf latest"
  from k have ke: "kept = [] \<or> last kept = CHR 0x0A"
  proof
    assume "max_id = ''0'' \<and> kept = []"
    then show ?thesis by simp
  next
    assume "\<exists>content. max_id \<noteq> ''0'' \<and> file = Some content
                  \<and> kept = concat (butlast (readlines content))"
    then obtain content where "kept = concat (butlast (readlines content))" by blast
    then show ?thesis by (simp only: kept_ends)
  qed
  have be: "body = [] \<or> last body = CHR 0x0A"
    by (rule render_items_ends [OF assms(3) b])
  have r: "readlines (kept @ body @ ?m) = readlines kept @ readlines body @ readlines ?m"
    by (simp only: readlines_append [OF ke] readlines_append [OF be])
  have d: "readlines (kept @ body @ ?m) = readlines kept @ readlines body @ [?m]
            \<and> get_latest_tweet_id file' = Inr latest
            \<and> marker_lines (kept @ body @ ?m)
              = marker_lines kept @ marker_lines body @ [?m]"
    if "latest \<noteq> []" "\<forall>c \<in> set latest. is_digit c"
  proof -
    note ml = marker_line [OF assms(3) that]
    have r': "readlines (kept @ body @ ?m) = (readlines kept @ readlines body) @ [?m]"
      by (simp only: r ml(1) append_assoc)
    have g: "get_latest_tweet_id file' = Inr latest"
      unfolding f by (rule get_latest_last [OF r' ml(3) ml(2)])
    have "marker_lines (kept @ body @ ?m) = marker_lines kept @ marker_lines body @ [?m]"
      unfolding marker_lines_def r' using ml(2) by simp
    with r' g show ?thesis by simp
  qed
  from b t k f d show ?thesis by blast
qed

lemma write_one_entry:
  "write_conversation posix_utc [(''105'', DMConversationEntry ''105'' ''e'')]
     (marker_file ''100'') ''100''
   = Inr (Some (''[DMConversationEntry] joined'' @ [CHR 0x0A]
                @ ''[DMConversationEntry] e'' @ [CHR 0x0A]
                @ ''[LatestTweetID] 105'' @ [CHR 0x0A]))"
  by (simp add: write_conversation_def marker_file_def latest_marker_def posix_utc_def)

theorem marker_invariant_witness:
  "write_conversation posix_utc [(''105'', DMConversationEntry ''105'' ''e'')]
     (marker_file ''100'') ''100''
   = Inr (Some (''[DMConversationEntry] joined'' @ [CHR 0x0A]
                @ ''[DMConversationEntry] e'' @ [CHR 0x0A]
                @ ''[LatestTweetID] 105'' @ [CHR 0x0A]))
   \<and> [(''105'', DMConversationEntry ''105'' ''e'')] \<noteq> []
   \<and> valid_linesep posix_utc
   \<and> get_latest_tweet_id (Some (''[DMConversationEntry] joined'' @ [CHR 0x0A]
                @ ''[DMConversationEntry] e'' @ [CHR 0x0A]
                @ ''[LatestTweetID] 105'' @ [CHR 0x0A])) = Inr ''105''"
proof -
  let ?ts = "[(''105'', DMConversationEntry ''105'' ''e'')]"
  have n: "?ts \<noteq> []" by simp
  have v: "valid_linesep posix_utc" by (simp add: valid_linesep_def posix_utc_def)
  from marker_invariant [OF write_one_entry n v] obtain latest
    where t: "tweet_id_of (snd (hd ?ts)) = Inr latest"
      and g: "latest \<noteq> [] \<and> (\<forall>c \<in> set latest. is_digit c) \<longrightarrow>
              get_latest_tweet_id (Some (''[DMConversationEntry] joined'' @ [CHR 0x0A]
                @ ''[DMConversationEntry] e'' @ [CHR 0x0A]
                @ ''[LatestTweetID] 105'' @ [CHR 0x0A])) = Inr latest"
    by blast
  from t have l: "latest = ''105''" by simp
  have "\<forall>c \<in> set ''105''. is_digit c" by (simp add: is_digit_def)
  with g l have "get_latest_tweet_id (Some (''[DMConversationEntry] joined'' @ [CHR 0x0A]
                @ ''[DMConversationEntry] e'' @ [CHR 0x0A]
                @ ''[LatestTweetID] 105'' @ [CHR 0x0A])) = Inr ''105''"
    by simp
  with write_one_entry n v show ?thesis by blast
qed

lemma render_two_line_message:
  "render_message posix_utc two_line_message
   = Inr (''[2021-01-01 00:00:00] <alice> hi'' @ [CHR 0x0A] @ ''[LatestTweetID] 7''
          @ [CHR 0x0A])"
  by (simp add: two_line_message_def eval_defs posix_utc_def)

text \<open>
  A message of two lines whose second line reads \<open>[LatestTweetID] 7\<close>: the file
  written has two lines that match the marker pattern.
\<close>

theorem marker_invariant_counterexample:
  "write_conversation posix_utc [(''5'', two_line_message)] None ''0''
   = Inr (Some (''[2021-01-01 00:00:00] <alice> hi'' @ [CHR 0x0A] @ ''[LatestTweetID] 7''
                @ [CHR 0x0A] @ ''[LatestTweetID] 5'' @ [CHR 0x0A]))
   \<and> marker_lines (''[2021-01-01 00:00:00] <alice> hi'' @ [CHR 0x0A]
                   @ ''[LatestTweetID] 7'' @ [CHR 0x0A] @ ''[LatestTweetID] 5''
                   @ [CHR 0x0A])
     = [''[LatestTweetID] 7'' @ [CHR 0x0A], ''[LatestTweetID] 5'' @ [CHR 0x0A]]"
proof -
  have "write_conversation posix_utc [(''5'', two_line_message)] None ''0''
   = Inr (Some (''[2021-01-01 00:00:00] <alice> hi'' @ [CHR 0x0A] @ ''[LatestTweetID] 7''
                @ [CHR 0x0A] @ ''[LatestTweetID] 5'' @ [CHR 0x0A]))"
    by (simp add: write_conversation_def render_two_line_message)
      (simp add: two_line_message_def latest_marker_def posix_utc_def)
  moreover have "marker_lines (''[2021-01-01 00:00:00] <alice> hi'' @ [CHR 0x0A]
                   @ ''[LatestTweetID] 7'' @ [CHR 0x0A] @ ''[LatestTweetID] 5''
                   @ [CHR 0x0A])
     = [''[LatestTweetID] 7'' @ [CHR 0x0A], ''[LatestTweetID] 5'' @ [CHR 0x0A]]"
    by (simp add: marker_lines_def match_latest_def is_digit_def)
  ultimately show ?thesis by blast
qed

subsection \<open>The lists of elements\<close>

lemma append_elements_frame:
  "append_elements (Some r) outs s = (res, s') \<Longrightarrow>
   next_ref s' = next_ref s \<and> (\<forall>q. q \<noteq> r \<longrightarrow> lists s' q = lists s q)"
  by (induction "Some r" outs s rule: append_elements.induct)
     (auto simp: append_to_def elements_ref_def)

lemma append_elements_value:
  "append_elements (Some r) outs s = (res, s') \<Longrightarrow>
   (case parse_elements outs (lists s r) of
      Inl e \<Rightarrow> res = Some e
    | Inr es \<Rightarrow> res = None \<and> lists s' r = es)"
  by (induction "Some r" outs s rule: append_elements.induct)
     (auto simp: append_to_def elements_ref_def)

lemma parse_fragment_in_frame:
  assumes "parse_fragment_in tweet_id frag s = (res, s')"
  shows "next_ref s \<le> next_ref s' \<and> (\<forall>q < next_ref s. lists s' q = lists s q)"
proof (cases frag)
  case (Fragment_DM dm_author time_stamp outcomes)
  obtain res1 s2 where a: "append_elements (Some (next_ref s)) outcomes
      (s\<lparr>lists := (lists s)(next_ref s := []), next_ref := Suc (next_ref s)\<rparr>) = (res1, s2)"
    by (cases "append_elements (Some (next_ref s)) outcomes
      (s\<lparr>lists := (lists s)(next_ref s := []), next_ref := Suc (next_ref s)\<rparr>)") blast
  from assms have "s' = s2"
    by (cases res1) (simp_all add: Fragment_DM new_list_def a)
  with append_elements_frame [OF a] show ?thesis by auto
next
  case (Fragment_Entry entry_text)
  with assms show ?thesis by (cases entry_text) auto
qed (use assms in auto)

lemma parse_fragment_in_value:
  assumes "parse_fragment_in tweet_id frag s = (res, s')"
  shows "case res of
           Inl e \<Rightarrow> parse_fragment tweet_id frag = Inl e
         | Inr m \<Rightarrow> parse_fragment tweet_id frag = Inr (load s' m)
                    \<and> owns_fresh (next_ref s) (next_ref s') m"
proof (cases frag)
  case (Fragment_DM dm_author time_stamp outcomes)
  let ?s1 = "s\<lparr>lists := (lists s)(next_ref s := []), next_ref := Suc (next_ref s)\<rparr>"
  obtain res1 s2 where a: "append_elements (Some (next_ref s)) outcomes ?s1 = (res1, s2)"
    by (cases "append_elements (Some (next_ref s)) outcomes ?s1") blast
  have n: "next_ref s2 = Suc (next_ref s)"
    using append_elements_frame [OF a] by simp
  have v: "case parse_elements outcomes [] of
             Inl e \<Rightarrow> res1 = Some e
           | Inr es \<Rightarrow> res1 = None \<and> lists s2 (next_ref s) = es"
    using append_elements_value [OF a] by simp
  show ?thesis
  proof (cases res1)
    case None
    with assms a have r: "res = Inr (Stored_DM tweet_id time_stamp dm_author (Some (next_ref s)))"
      "s' = s2"
      by (simp_all add: Fragment_DM new_list_def)
    from v None obtain es where "parse_elements outcomes [] = Inr es"
      "lists s2 (next_ref s) = es"
      by (cases "parse_elements outcomes []") auto
    then show ?thesis
      by (simp add: r Fragment_DM elements_ref_def n)
  next
    case (Some e)
    with assms a have r: "res = Inl e"
      by (simp add: Fragment_DM new_list_def)
    from v Some have "parse_elements outcomes [] = Inl e"
      by (cases "parse_elements outcomes []") auto
    then show ?thesis
      by (simp add: r Fragment_DM)
  qed
next
  case (Fragment_Entry entry_text)
  with assms show ?thesis by (cases entry_text) auto
qed (use assms in auto)

lemma map_update:
  "map (\<lambda>kv. (fst kv, f (snd kv))) (AList.update k v cs)
   = AList.update k (f v) (map (\<lambda>kv. (fst kv, f (snd kv))) cs)"
  by (induction cs) auto

lemma own_refs_update_value:
  "set (own_refs (AList.update k (Stored_Value m) cs)) \<subseteq> set (own_refs cs)
   \<and> (distinct (own_refs cs) \<longrightarrow> distinct (own_refs (AList.update k (Stored_Value m) cs)))"
  by (induction cs rule: own_refs.induct) auto

lemma own_refs_update_fresh:
  "r \<notin> set (own_refs cs) \<Longrightarrow>
   set (own_refs (AList.update k (Stored_DM a b c (Some r)) cs)) \<subseteq> insert r (set (own_refs cs))
   \<and> (distinct (own_refs cs)
        \<longrightarrow> distinct (own_refs (AList.update k (Stored_DM a b c (Some r)) cs)))"
  by (induction cs rule: own_refs.induct) auto

lemma own_refs_bound:
  "\<forall>kv \<in> set cs. owns_fresh lo hi (snd kv) \<Longrightarrow> r \<in> set (own_refs cs) \<Longrightarrow> lo \<le> r \<and> r < hi"
  by (induction cs rule: own_refs.induct) auto

lemma owns_fresh_mono: "owns_fresh lo hi m \<Longrightarrow> hi \<le> hi' \<Longrightarrow> owns_fresh lo hi' m"
  by (cases "(lo, hi, m)" rule: owns_fresh.cases) auto

lemma load_frame:
  "owns_fresh lo hi m \<Longrightarrow> \<forall>q < hi. lists s' q = lists s q \<Longrightarrow> load s' m = load s m"
  by (cases "(lo, hi, m)" rule: owns_fresh.cases) (auto simp: elements_ref_def)

lemma in_update: "kv \<in> set (AList.update k v cs) \<Longrightarrow> kv = (k, v) \<or> kv \<in> set cs"
  by (induction cs) (auto split: if_splits)

lemma owns_fresh_weaken:
  "owns_fresh lo hi m \<Longrightarrow> lo' \<le> lo \<Longrightarrow> hi \<le> hi' \<Longrightarrow> owns_fresh lo' hi' m"
  by (cases "(lo, hi, m)" rule: owns_fresh.cases) auto

lemma own_refs_update:
  assumes "distinct (own_refs cs)"
    and "\<forall>kv \<in> set cs. owns_fresh lo mid (snd kv)"
    and "owns_fresh mid hi m"
  shows "distinct (own_refs (AList.update k m cs))"
proof (cases "(mid, hi, m)" rule: owns_fresh.cases)
  case (1 lo' hi' a b c r)
  then have "mid \<le> r" using assms(3) by simp
  then have "r \<notin> set (own_refs cs)"
    using own_refs_bound [OF assms(2)] by fastforce
  from own_refs_update_fresh [OF this] assms(1) 1 show ?thesis by simp
next
  case (2 lo' hi' a b c)
  with assms(3) show ?thesis by simp
next
  case (3 lo' hi' v)
  with own_refs_update_value assms(1) show ?thesis by simp
qed

lemma step:
  assumes "separate lo st"
    and "parse_fragment_in k frag (st_store st) = (res, s)"
  shows "\<forall>q < lo. lists s q = lists (st_store st) q"
    and "separate lo (st\<lparr>st_found := b, st_store := s\<rparr>)"
    and "snd (readout (st\<lparr>st_found := b, st_store := s\<rparr>)) = snd (readout st)"
    and "owns_fresh (next_ref (st_store st)) (next_ref s) m \<Longrightarrow>
         separate lo (st\<lparr>st_set := AList.update k m (st_set st), st_store := s\<rparr>)
         \<and> readout (st\<lparr>st_set := AList.update k m (st_set st), st_store := s\<rparr>)
           = (fst (readout st), AList.update k (load s m) (snd (readout st)))"
proof -
  let ?old = "st_store st"
  note f = parse_fragment_in_frame [OF assms(2)]
  from assms(1) have lo: "lo \<le> next_ref ?old"
    and own: "\<forall>kv \<in> set (st_set st). owns_fresh lo (next_ref ?old) (snd kv)"
    and d: "distinct (own_refs (st_set st))"
    by (simp_all add: separate_def)
  show fr: "\<forall>q < lo. lists s q = lists ?old q"
    using f lo by auto
  have own': "\<forall>kv \<in> set (st_set st). owns_fresh lo (next_ref s) (snd kv)"
    using own f owns_fresh_weaken by blast
  show "separate lo (st\<lparr>st_found := b, st_store := s\<rparr>)"
    using lo f own' d by (simp add: separate_def)
  have same: "load s (snd kv) = load ?old (snd kv)" if "kv \<in> set (st_set st)" for kv
    using load_frame [of lo "next_ref ?old" "snd kv" s ?old] own that f by blast
  then have maps: "map (\<lambda>kv. (fst kv, load s (snd kv))) (st_set st)
                   = map (\<lambda>kv. (fst kv, load ?old (snd kv))) (st_set st)"
    by simp
  then show "snd (readout (st\<lparr>st_found := b, st_store := s\<rparr>)) = snd (readout st)"
    by (simp add: readout_def)
  show "separate lo (st\<lparr>st_set := AList.update k m (st_set st), st_store := s\<rparr>)
         \<and> readout (st\<lparr>st_set := AList.update k m (st_set st), st_store := s\<rparr>)
           = (fst (readout st), AList.update k (load s m) (snd (readout st)))"
    if m: "owns_fresh (next_ref ?old) (next_ref s) m"
  proof -
    have "owns_fresh lo (next_ref s) m"
      using m lo owns_fresh_weaken by blast
    then have "\<forall>kv \<in> set (AList.update k m (st_set st)). owns_fresh lo (next_ref s) (snd kv)"
      using own' in_update by fastforce
    moreover have "distinct (own_refs (AList.update k m (st_set st)))"
      by (rule own_refs_update [OF d own m])
    ultimately have "separate lo (st\<lparr>st_set := AList.update k m (st_set st), st_store := s\<rparr>)"
      using lo f by (simp add: separate_def)
    moreover have "readout (st\<lparr>st_set := AList.update k m (st_set st), st_store := s\<rparr>)
           = (fst (readout st), AList.update k (load s m) (snd (readout st)))"
      by (simp add: readout_def map_update maps)
    ultimately show ?thesis by blast
  qed
qed

lemma process_loop_in_refines:
  "separate lo st \<Longrightarrow>
   separate lo (process_loop_in parse max_id page st)
   \<and> (\<forall>q < lo. lists (st_store (process_loop_in parse max_id page st)) q
                = lists (st_store st) q)
   \<and> readout (process_loop_in parse max_id page st)
     = process_loop parse max_id page (readout st)"
proof (induction page arbitrary: st)
  case Nil
  then show ?case by simp
next
  case (Cons tweet rest)
  let ?k = "fst tweet"
  show ?case
  proof (cases "?k = max_id")
    case True
    have "separate lo (st\<lparr>st_found := True\<rparr>)"
      using Cons.prems by (simp add: separate_def)
    then show ?thesis
      using True by (simp add: readout_def)
  next
    case False
    obtain res s where p: "parse_fragment_in ?k (parse ?k (snd tweet)) (st_store st) = (res, s)"
      by (cases "parse_fragment_in ?k (parse ?k (snd tweet)) (st_store st)") blast
    note st = step [OF Cons.prems p]
    note v = parse_fragment_in_value [OF p]
    show ?thesis
    proof (cases res)
      case (Inl e)
      with v have pv: "parse_fragment ?k (parse ?k (snd tweet)) = Inl e" by simp
      show ?thesis
      proof (cases "e = KeyboardInterrupt")
        case True
        have "process_loop_in parse max_id (tweet # rest) st
              = st\<lparr>st_found := True, st_store := s\<rparr>"
          using False p Inl True by simp
        moreover have "process_loop parse max_id (tweet # rest) (readout st)
              = (True, snd (readout st))"
          using False pv True by simp
        moreover have "readout (st\<lparr>st_found := True, st_store := s\<rparr>)
              = (True, snd (readout st))"
          using st(3) [of True] by (simp add: readout_def)
        ultimately show ?thesis
          using st(1) st(2) [of True] by simp
      next
        case other: False
        let ?v = "Stored_Value (parse_error_entry ?k (snd tweet))"
        let ?st1 = "st\<lparr>st_set := AList.update ?k ?v (st_set st), st_store := s\<rparr>"
        have "owns_fresh (next_ref (st_store st)) (next_ref s) ?v" by simp
        from st(4) [OF this]
        have s1: "separate lo ?st1"
          and r1: "readout ?st1 = (fst (readout st),
                     AList.update ?k (parse_error_entry ?k (snd tweet)) (snd (readout st)))"
          by simp_all
        have a: "process_loop_in parse max_id (tweet # rest) st
              = process_loop_in parse max_id rest ?st1"
          using False p Inl other by simp
        have b: "process_loop parse max_id (tweet # rest) (readout st)
              = process_loop parse max_id rest (readout ?st1)"
          using False pv other by (simp add: r1)
        from Cons.IH [OF s1] st(1) show ?thesis
          by (simp only: a b) simp
      qed
    next
      case (Inr m)
      with v have pv: "parse_fragment ?k (parse ?k (snd tweet)) = Inr (load s m)"
        and own: "owns_fresh (next_ref (st_store st)) (next_ref s) m"
        by simp_all
      let ?st1 = "st\<lparr>st_set := AList.update ?k m (st_set st), st_store := s\<rparr>"
      from st(4) [OF own]
      have s1: "separate lo ?st1"
        and r1: "readout ?st1 = (fst (readout st),
                   AList.update ?k (load s m) (snd (readout st)))"
        by simp_all
      have a: "process_loop_in parse max_id (tweet # rest) st
            = process_loop_in parse max_id rest ?st1"
        using False p Inr by simp
      have b: "process_loop parse max_id (tweet # rest) (readout st)
            = process_loop parse max_id rest (readout ?st1)"
        using False pv by (simp add: r1)
      from Cons.IH [OF s1] st(1) show ?thesis
        by (simp only: a b) simp
    qed
  qed
qed

text \<open>
  Without an instance attribute, \<open>message.elements\<close> is the list of the class: an
  append through such a message changes the list every such message sees.
\<close>

lemma class_list_shared:
  "append_elements None [Appended x] s
   = (None, s\<lparr>lists := (lists s)(class_elements := lists s class_elements @ [x])\<rparr>)"
  by (simp add: append_to_def elements_ref_def)

lemma run_two_messages:
  "process_tweets text_parser two_notices ''0'' False
   = (False,
      [(''105'', DirectMessage ''105'' (Some ''1609459200'') (Some ''alice'')
                   [DirectMessageText ''a'']),
       (''103'', DirectMessage ''103'' (Some ''1609459200'') (Some ''alice'')
                   [DirectMessageText ''b''])])"
  by (simp add: text_parser_def run_defs)

lemma run_two_messages_in:
  "st_set (process_tweets_in text_parser two_notices ''0'' False initial_store)
   = [(''105'', Stored_DM ''105'' (Some ''1609459200'') (Some ''alice'') (Some 1)),
      (''103'', Stored_DM ''103'' (Some ''1609459200'') (Some ''alice'') (Some 2))]"
  by (simp add: process_tweets_in_def ordered_tweets_def two_notices_def text_parser_def
      initial_store_def new_list_def append_to_def elements_ref_def)

text \<open>
  C10. In a store where the list of the class exists, every \<open>DirectMessage\<close> that
  \<open>_process_tweets\<close> puts into \<open>conversation_set\<close> owns a list allocated during the
  call, which is neither the list of the class nor a list that existed before; no two
  of them own the same list; no list that existed before the call is changed, the list
  of the class among them; and the values of the messages read from the store are those
  of the model in which each message holds its elements by value. The parsing of one
  fragment, in any store, changes no list that existed when it began, so none of a
  message parsed before.
\<close>

theorem fresh_elements_lists:
  assumes "class_elements < next_ref s"
  shows "(\<forall>kv \<in> set (st_set (process_tweets_in parse page max_id found s)).
            owns_fresh (next_ref s)
              (next_ref (st_store (process_tweets_in parse page max_id found s))) (snd kv))
       \<and> distinct (own_refs (st_set (process_tweets_in parse page max_id found s)))
       \<and> (\<forall>q < next_ref s.
            lists (st_store (process_tweets_in parse page max_id found s)) q = lists s q)
       \<and> lists (st_store (process_tweets_in parse page max_id found s)) class_elements
         = lists s class_elements
       \<and> readout (process_tweets_in parse page max_id found s)
         = process_tweets parse page max_id found
       \<and> (\<forall>q < next_ref t.
            lists (snd (parse_fragment_in tweet_id frag t)) q = lists t q)"
proof -
  let ?st = "\<lparr>st_found = found, st_set = [], st_store = s\<rparr>"
  have "separate (next_ref s) ?st"
    by (simp add: separate_def)
  from process_loop_in_refines [OF this, of parse max_id "ordered_tweets page"]
  have a: "(\<forall>kv \<in> set (st_set (process_tweets_in parse page max_id found s)).
            owns_fresh (next_ref s)
              (next_ref (st_store (process_tweets_in parse page max_id found s))) (snd kv))
       \<and> distinct (own_refs (st_set (process_tweets_in parse page max_id found s)))
       \<and> (\<forall>q < next_ref s.
            lists (st_store (process_tweets_in parse page max_id found s)) q = lists s q)
       \<and> lists (st_store (process_tweets_in parse page max_id found s)) class_elements
         = lists s class_elements
       \<and> readout (process_tweets_in parse page max_id found s)
         = process_tweets parse page max_id found"
    using assms
    by (simp add: process_tweets_in_def process_tweets_def separate_def readout_def)
  have b: "\<forall>q < next_ref t. lists (snd (parse_fragment_in tweet_id frag t)) q = lists t q"
    using parse_fragment_in_frame [of tweet_id frag t] by (simp add: prod_eq_iff)
  show ?thesis using a b by blast
qed

theorem fresh_elements_lists_witness:
  "class_elements < next_ref initial_store
   \<and> st_set (process_tweets_in text_parser two_notices ''0'' False initial_store)
     = [(''105'', Stored_DM ''105'' (Some ''1609459200'') (Some ''alice'') (Some 1)),
        (''103'', Stored_DM ''103'' (Some ''1609459200'') (Some ''alice'') (Some 2))]
   \<and> distinct (own_refs
       [(''105'', Stored_DM ''105'' (Some ''1609459200'') (Some ''alice'') (Some 1)),
        (''103'', Stored_DM ''103'' (Some ''1609459200'') (Some ''alice'') (Some 2))])
   \<and> lists (st_store (process_tweets_in text_parser two_notices ''0'' False initial_store))
       class_elements = []
   \<and> readout (process_tweets_in text_parser two_notices ''0'' False initial_store)
     = (False,
        [(''105'', DirectMessage ''105'' (Some ''1609459200'') (Some ''alice'')
                     [DirectMessageText ''a'']),
         (''103'', DirectMessage ''103'' (Some ''1609459200'') (Some ''alice'')
                     [DirectMessageText ''b''])])"
proof -
  have c: "class_elements < next_ref initial_store"
    by (simp add: class_elements_def initial_store_def)
  note th = fresh_elements_lists [OF c, of text_parser two_notices "''0''" False]
  have "lists (st_store (process_tweets_in text_parser two_notices ''0'' False initial_store))
          class_elements = lists initial_store class_elements"
    using th by blast
  then have l: "lists (st_store
      (process_tweets_in text_parser two_notices ''0'' False initial_store))
          class_elements = []"
    by (simp add: initial_store_def)
  have r: "readout (process_tweets_in text_parser two_notices ''0'' False initial_store)
     = process_tweets text_parser two_notices ''0'' False"
    using th by blast
  have d: "distinct (own_refs (st_set
      (process_tweets_in text_parser two_notices ''0'' False initial_store)))"
    using th by blast
  show ?thesis
    using c l r [unfolded run_two_messages] d [unfolded run_two_messages_in]
      run_two_messages_in
    by blast
qed

end
